theory Spec2Isabelle
  imports Complex_Main "HOL-Library.AList" "HOL-Library.Product_Lexorder"
begin

section \<open>Idea summaries and their merge (app/main.py)\<close>

text \<open>
  A summary bucket is the dictionary built by \<open>_new_summary_bucket\<close> and by the adapters:
  two counters, two sets of strings and the first sample seen.  Python's unbounded
  integers are \<open>int\<close>; the name drops the leading underscore of the source.
\<close>

record bucket =
  mentions :: int
  pay_mentions :: int
  sources :: "string set"
  subreddits :: "string set"
  sample_title :: string
  sample_url :: string

text \<open>
  A summary is a Python \<open>dict\<close> from idea key to bucket.  It is kept as an association
  list in insertion order, which is the order \<open>dict.items()\<close> iterates in;
  \<open>AList.update\<close> overwrites a present key in place and appends an absent one, as
  assignment to a dict entry does.
\<close>

type_synonym summary = "(string \<times> bucket) list"

definition new_summary_bucket :: bucket where
  "new_summary_bucket =
     \<lparr>mentions = 0, pay_mentions = 0, sources = {}, subreddits = {},
      sample_title = [], sample_url = []\<rparr>"

text \<open>
  The body of the loop of \<open>merge_summaries\<close> for one incoming entry, once the target
  bucket is known: both counters are added, both sets are united, and the sample is taken
  from the incoming entry only when the bucket has none and the incoming one has a title.
\<close>

definition merge_bucket :: "bucket \<Rightarrow> bucket \<Rightarrow> bucket" where
  "merge_bucket b d =
     (let b1 = b\<lparr>mentions := mentions b + mentions d,
                  pay_mentions := pay_mentions b + pay_mentions d,
                  sources := sources b \<union> sources d,
                  subreddits := subreddits b \<union> subreddits d\<rparr>
      in if sample_title b1 = [] \<and> sample_title d \<noteq> []
         then b1\<lparr>sample_title := sample_title d, sample_url := sample_url d\<rparr>
         else b1)"

text \<open>
  \<open>merge_summaries(target, incoming)\<close>: \<open>target.get(key)\<close> is \<open>None\<close> exactly when the key
  is absent (a bucket is a non-empty dict, hence truthy), and then a fresh bucket is
  stored under the key before it is updated.
\<close>

fun merge_summaries :: "summary \<Rightarrow> summary \<Rightarrow> summary" where
  "merge_summaries target [] = target"
| "merge_summaries target ((key, data) # incoming) =
     (let b = (case map_of target key of None \<Rightarrow> new_summary_bucket | Some b0 \<Rightarrow> b0)
      in merge_summaries (AList.update key (merge_bucket b data) target) incoming)"

text \<open>
  Vocabulary for the properties of the merge: the bucket a key stands for (a fresh one
  when the key is absent), the incoming entries of a key, and the four aggregate fields
  of a bucket.
\<close>

definition look :: "summary \<Rightarrow> string \<Rightarrow> bucket" where
  "look t k = (case map_of t k of None \<Rightarrow> new_summary_bucket | Some b \<Rightarrow> b)"

definition entries_for :: "string \<Rightarrow> summary \<Rightarrow> bucket list" where
  "entries_for k inc = map snd (filter (\<lambda>e. fst e = k) inc)"

definition aggregate :: "bucket \<Rightarrow> int \<times> int \<times> string set \<times> string set" where
  "aggregate b = (mentions b, pay_mentions b, sources b, subreddits b)"

text \<open>
  The two quantities of the summary invariants: the sum of \<open>mentions\<close> over all
  buckets, and the bound \<open>pay_mentions \<le> mentions\<close> in every bucket.
\<close>

definition total_mentions :: "summary \<Rightarrow> int" where
  "total_mentions s = sum_list (map (\<lambda>e. mentions (snd e)) s)"

definition pay_bounded :: "summary \<Rightarrow> bool" where
  "pay_bounded s = list_all (\<lambda>e. pay_mentions (snd e) \<le> mentions (snd e)) s"

text \<open>Two partial summaries to run the merge on.\<close>

definition merge_part_a :: summary where
  "merge_part_a =
     [(''budget'', \<lparr>mentions = 2, pay_mentions = 1, sources = {''Reddit''},
                    subreddits = {''SaaS''}, sample_title = ''post one'',
                    sample_url = ''https://www.reddit.com/r/SaaS/1''\<rparr>)]"

definition merge_part_b :: summary where
  "merge_part_b =
     [(''budget'', \<lparr>mentions = 1, pay_mentions = 0, sources = {''X''},
                    subreddits = {''query:app for''}, sample_title = ''tweet one'',
                    sample_url = ''https://x.com/i/web/status/1''\<rparr>),
      (''invoices'', \<lparr>mentions = 1, pay_mentions = 0, sources = {''X''},
                    subreddits = {''query:app for''}, sample_title = ''tweet two'',
                    sample_url = ''https://x.com/i/web/status/2''\<rparr>)]"

section \<open>Trend engine (app/main.py, enrich_summary)\<close>

text \<open>
  A row of the table \<open>idea_summaries\<close> as \<open>fetch_all\<close> returns it.  The two counters are
  optional because the source reads them with \<open>row.get(..., 0) or 0\<close>, which also
  accepts a missing or null value.
\<close>

record idea_summary_row =
  isr_idea_key :: string
  isr_mentions :: "int option"
  isr_pay_mentions :: "int option"
  isr_sources :: string
  isr_subreddits :: string

text \<open>A row of the previous scan: \<open>SELECT idea_key, mentions, pay_mentions\<close>.\<close>

record prev_row =
  pr_mentions :: int
  pr_pay_mentions :: int

record enriched_row = idea_summary_row +
  signal :: string
  pay_ratio :: rat
  mentions_per_day :: rat
  delta_mentions :: "int option"
  delta_pay :: "int option"
  momentum :: string

definition py_or0 :: "int option \<Rightarrow> int" where
  "py_or0 v = (case v of None \<Rightarrow> 0 | Some n \<Rightarrow> n)"

text \<open>
  Python's \<open>round(x, ndigits)\<close> rounds to the nearest multiple of \<open>10 ^ -ndigits\<close>, a tie
  going to the even neighbour.  The source applies it to binary floating point numbers;
  the model computes with exact rationals, so it agrees with the source up to the
  representation error of a \<open>float\<close>.
\<close>

definition round_half_even :: "rat \<Rightarrow> int" where
  "round_half_even q =
     (let f = \<lfloor>q\<rfloor>; d = q - of_int f
      in if d < 1 / 2 then f
         else if 1 / 2 < d then f + 1
         else if even f then f else f + 1)"

definition py_round :: "rat \<Rightarrow> nat \<Rightarrow> rat" where
  "py_round x ndigits = of_int (round_half_even (x * 10 ^ ndigits)) / 10 ^ ndigits"

text \<open>
  One iteration of the loop of \<open>enrich_summary\<close>.  The presentation fields \<open>persona\<close>,
  \<open>brief\<close>, \<open>problem_statement\<close>, \<open>mvp_angle\<close> and \<open>pricing_hypothesis\<close> are formatted
  strings derived from the fields below and are not part of the model.
\<close>

definition enrich_row ::
  "int \<Rightarrow> (string \<rightharpoonup> prev_row) option \<Rightarrow> idea_summary_row \<Rightarrow> enriched_row" where
  "enrich_row since_days previous_map row =
     (let m = py_or0 (isr_mentions row);
          p = py_or0 (isr_pay_mentions row);
          sig = (if 2 \<le> p \<or> 12 \<le> m then ''High''
                 else if 1 \<le> p \<or> 5 \<le> m then ''Medium''
                 else ''Low'');
          ratio = (if m \<noteq> 0 then py_round (of_int p / of_int m * 100) 1 else 0);
          per_day = (if since_days \<noteq> 0 then py_round (of_int m / of_int since_days) 2 else 0);
          prev = (case previous_map of None \<Rightarrow> None | Some pm \<Rightarrow> pm (isr_idea_key row))
      in case prev of
           None \<Rightarrow>
             idea_summary_row.extend row
               \<lparr>signal = sig, pay_ratio = ratio, mentions_per_day = per_day,
                delta_mentions = None, delta_pay = None, momentum = ''New''\<rparr>
         | Some pr \<Rightarrow>
             (let dm = m - pr_mentions pr;
                  dp = p - pr_pay_mentions pr
              in idea_summary_row.extend row
                   \<lparr>signal = sig, pay_ratio = ratio, mentions_per_day = per_day,
                    delta_mentions = Some dm, delta_pay = Some dp,
                    momentum = (if 3 \<le> dm then ''Up''
                                else if dm \<le> - 3 then ''Down''
                                else ''Flat'')\<rparr>))"

definition enrich_summary ::
  "idea_summary_row list \<Rightarrow> int \<Rightarrow> (string \<rightharpoonup> prev_row) option \<Rightarrow> enriched_row list" where
  "enrich_summary rows since_days previous_map = map (enrich_row since_days previous_map) rows"


text \<open>Concrete rows used to run the trend engine on.\<close>

definition trend_row_a :: idea_summary_row where
  "trend_row_a =
     \<lparr>isr_idea_key = ''expense tracking budget'', isr_mentions = Some 9,
      isr_pay_mentions = Some 1, isr_sources = ''Reddit'', isr_subreddits = ''SaaS''\<rparr>"

definition trend_row_b :: idea_summary_row where
  "trend_row_b =
     \<lparr>isr_idea_key = ''invoice reminders'', isr_mentions = Some 3,
      isr_pay_mentions = Some 1, isr_sources = ''X'', isr_subreddits = ''query:app for''\<rparr>"

definition trend_prev :: "string \<rightharpoonup> prev_row" where
  "trend_prev =
     [''expense tracking budget'' \<mapsto> \<lparr>pr_mentions = 5, pr_pay_mentions = 0\<rparr>]"

section \<open>Pattern classifier (app/scanning.py)\<close>

text \<open>
  Strings are lists of 8-bit characters; the model reads the source's \<open>str\<close> values as
  ASCII text.  Lower-casing and the character classes below are the ASCII ones.
\<close>

definition lower_char :: "char \<Rightarrow> char" where
  "lower_char c =
     (let n = (of_char c :: nat) in if 65 \<le> n \<and> n \<le> 90 then char_of (n + 32) else c)"

definition lower :: "string \<Rightarrow> string" where
  "lower s = map lower_char s"

definition is_az :: "char \<Rightarrow> bool" where
  "is_az c = (let n = (of_char c :: nat) in 97 \<le> n \<and> n \<le> 122)"

definition is_word_char :: "char \<Rightarrow> bool" where
  "is_word_char c =
     (let n = (of_char c :: nat)
      in (97 \<le> n \<and> n \<le> 122) \<or> (65 \<le> n \<and> n \<le> 90) \<or> (48 \<le> n \<and> n \<le> 57) \<or> n = 95)"

definition backslash :: char where
  "backslash = CHR 0x5C"

text \<open>
  The fragment of Python's regular expressions that \<open>PATTERN_GROUPS\<close> uses: literal
  characters, the word-boundary assertion, concatenation, alternation and \<open>?\<close>.
  A literal is compared without regard to case, since every alternation is compiled with
  \<open>re.IGNORECASE\<close>.
\<close>

datatype rx = Eps | Lit char | WordB | Cat rx rx | Alt rx rx | Opt rx

text \<open>
  A matcher state is the character before the current position (if any) and the rest of
  the text.  \<open>rx_match r st\<close> lists the states that a match of \<open>r\<close> starting at \<open>st\<close> can
  end in; \<open>re.search\<close> finds a match exactly when some start position has one.
\<close>

definition at_boundary :: "char option \<Rightarrow> string \<Rightarrow> bool" where
  "at_boundary p s =
     ((case p of None \<Rightarrow> False | Some c \<Rightarrow> is_word_char c)
      \<noteq> (case s of [] \<Rightarrow> False | d # _ \<Rightarrow> is_word_char d))"

fun rx_match :: "rx \<Rightarrow> char option \<times> string \<Rightarrow> (char option \<times> string) list" where
  "rx_match Eps st = [st]"
| "rx_match (Lit c) (p, s) =
     (case s of [] \<Rightarrow> [] | d # t \<Rightarrow> if lower_char d = lower_char c then [(Some d, t)] else [])"
| "rx_match WordB (p, s) = (if at_boundary p s then [(p, s)] else [])"
| "rx_match (Cat a b) st = concat (map (rx_match b) (rx_match a st))"
| "rx_match (Alt a b) st = rx_match a st @ rx_match b st"
| "rx_match (Opt a) st = rx_match a st @ [st]"

fun rx_search_from :: "rx \<Rightarrow> char option \<Rightarrow> string \<Rightarrow> bool" where
  "rx_search_from r p [] = (rx_match r (p, []) \<noteq> [])"
| "rx_search_from r p (c # s) = (rx_match r (p, c # s) \<noteq> [] \<or> rx_search_from r (Some c) s)"

definition rx_search :: "rx \<Rightarrow> string \<Rightarrow> bool" where
  "rx_search r text = rx_search_from r None text"

fun lits :: "string \<Rightarrow> rx" where
  "lits [] = Eps"
| "lits [c] = Lit c"
| "lits (c # cs) = Cat (Lit c) (lits cs)"

fun cat :: "rx list \<Rightarrow> rx" where
  "cat [] = Eps"
| "cat [r] = r"
| "cat (r # rs) = Cat r (cat rs)"

text \<open>\<open>"|".join(patterns)\<close>, compiled: the alternation of the patterns, in order.\<close>

fun alts :: "rx list \<Rightarrow> rx" where
  "alts [] = Eps"
| "alts [r] = r"
| "alts (r # rs) = Alt r (alts rs)"

text \<open>
  The patterns of \<open>PATTERN_GROUPS\<close>, with the reading of the token that opens and closes
  each of them left as the parameter \<open>b\<close>.  In the source every pattern is a raw string
  such as \<open>r"\\bi'?d pay\\b"\<close>, with two backslashes before the \<open>b\<close>.
\<close>

definition tool_word :: rx where
  "tool_word = alts [lits ''app'', lits ''tool'', lits ''software'', lits ''service'']"

definition opt_article :: rx where
  "opt_article = Opt (cat [lits ''a'', Opt (lits ''n''), lits '' ''])"

definition pattern_groups_with :: "rx \<Rightarrow> (string \<times> rx list) list" where
  "pattern_groups_with b =
     [(''app_request'',
        [cat [b, lits ''is there '', alts [lits ''an'', lits ''a''], lits '' app'', b],
         cat [b, lits ''is there a'', Opt (lits ''n''), lits '' '',
              alts [lits ''tool'', lits ''software'', lits ''service''], b],
         cat [b, lits ''any app '', alts [lits ''for'', lits ''that''], b],
         cat [b, lits ''does anyone know '', opt_article, tool_word, b],
         cat [b, lits ''looking for '', opt_article, tool_word, b],
         cat [b, lits ''need '', opt_article, tool_word, b],
         cat [b, lits ''app that '', alts [lits ''can'', lits ''does'', lits ''will''], b],
         cat [b, lits ''alternative to'', b]]),
      (''pain'',
        [cat [b, lits ''frustrat'', alts [lits ''ed'', lits ''ing''], b],
         cat [b, lits ''this '', alts [lits ''sucks'', lits ''is awful'', lits ''is terrible''], b],
         cat [b, lits ''why is '', alts [lits ''there'', lits ''this''], lits '' no'', b],
         cat [b, lits ''wish there '', alts [lits ''was'', lits ''were''], b],
         cat [b, lits ''hate '', alts [lits ''having'', lits ''to'', lits ''that''], b],
         cat [b, lits ''pain point'', b],
         cat [b, lits ''problem is'', b],
         cat [b, lits ''struggling with'', b]]),
      (''pay'',
        [cat [b, lits ''i'', Opt (Lit (CHR 0x27)), lits ''d pay'', b],
         cat [b, lits ''i would pay'', b],
         cat [b, lits ''willing to pay'', b],
         cat [b, lits ''pay for '', opt_article, tool_word, b],
         cat [b, lits ''happily pay'', b]])]"

text \<open>
  In a raw string the two characters \<open>\\\<close> stay two characters, and the regular
  expression compiler reads them as an escaped backslash: the pattern asks for a
  backslash followed by the letter b in the text.
\<close>

definition escaped_backslash_b :: rx where
  "escaped_backslash_b = Cat (Lit backslash) (Lit (CHR ''b''))"

definition PATTERN_GROUPS :: "(string \<times> rx list) list" where
  "PATTERN_GROUPS = pattern_groups_with escaped_backslash_b"

definition compile_patterns :: "(string \<times> rx) list" where
  "compile_patterns = map (\<lambda>(name, patterns). (name, alts patterns)) PATTERN_GROUPS"

definition match_groups :: "string \<Rightarrow> (string \<times> rx) list \<Rightarrow> string list" where
  "match_groups text compiled = map fst (filter (\<lambda>(name, r). rx_search r text) compiled)"

text \<open>
  The classifier with the opening and closing token of every pattern read as \<open>b\<close>;
  \<open>compile_patterns\<close> is \<open>compile_with escaped_backslash_b\<close>.
\<close>

definition compile_with :: "rx \<Rightarrow> (string \<times> rx) list" where
  "compile_with b = map (\<lambda>(name, patterns). (name, alts patterns)) (pattern_groups_with b)"



section \<open>Idea key generator (app/scanning.py)\<close>

definition STOPWORDS :: "string list" where
  "STOPWORDS =
     [''this'', ''that'', ''with'', ''from'', ''they'', ''them'', ''then'', ''than'', ''there'',
      ''here'', ''have'', ''has'', ''had'', ''your'', ''yours'', ''what'', ''which'', ''when'',
      ''where'', ''would'', ''could'', ''should'', ''their'', ''about'', ''into'', ''just'',
      ''like'', ''really'', ''very'', ''much'', ''some'', ''more'', ''most'', ''also'', ''only'',
      ''does'', ''doing'', ''done'', ''need'', ''want'', ''looking'', ''app'', ''apps'',
      ''tool'', ''tools'', ''software'', ''service'', ''services'', ''help'', ''anyone'',
      ''know'', ''find'', ''use'', ''using'', ''used'', ''make'', ''making'', ''made'']"

text \<open>
  \<open>re.findall(r"[a-z]{4,}", s)\<close> scans from the left: at each position it takes the
  longest run of lower-case letters; a run of at least four of them is a token and the
  scan resumes after it, otherwise the scan moves one character on.
\<close>

function findall_words :: "string \<Rightarrow> string list" where
  "findall_words [] = []"
| "findall_words (c # s) =
     (let run = takeWhile is_az (c # s)
      in if 4 \<le> length run then run # findall_words (drop (length run) (c # s))
         else findall_words s)"
  by pat_completeness auto
termination
  by (relation "measure length") auto

text \<open>
  \<open>Counter(words)\<close> counts in one pass and keeps the keys in the order of their first
  occurrence.
\<close>

definition counter_add :: "(string \<times> nat) list \<Rightarrow> string \<Rightarrow> (string \<times> nat) list" where
  "counter_add cnt w =
     (case map_of cnt w of None \<Rightarrow> cnt @ [(w, 1)] | Some n \<Rightarrow> AList.update w (n + 1) cnt)"

definition Counter :: "string list \<Rightarrow> (string \<times> nat) list" where
  "Counter ws = foldl counter_add [] ws"

text \<open>
  \<open>most_common(n)\<close> is \<open>heapq.nlargest(n, items, key=count)\<close>, which the library
  documents as \<open>sorted(items, key=count, reverse=True)[:n]\<close>: a stable sort by
  descending count, cut after \<open>n\<close> entries.
\<close>

definition most_common :: "nat \<Rightarrow> (string \<times> nat) list \<Rightarrow> (string \<times> nat) list" where
  "most_common n cnt = take n (sort_key (\<lambda>e. - int (snd e)) cnt)"

fun join :: "string \<Rightarrow> string list \<Rightarrow> string" where
  "join sep [] = []"
| "join sep [w] = w"
| "join sep (w # ws) = w @ sep @ join sep ws"

definition idea_key :: "string \<Rightarrow> string" where
  "idea_key text =
     (let words = filter (\<lambda>w. w \<notin> set STOPWORDS) (findall_words (lower text))
      in if words = [] then ''uncategorized''
         else join '' '' (map fst (most_common 6 (Counter words))))"

text \<open>
  The algorithm as the specification words it.  The alphabetic tokens are the maximal
  runs of letters of the lower-cased text (\<open>alpha_runs\<close>), kept when they have at least
  four letters and are no stop word; the distinct tokens are ordered by descending
  frequency and, among tokens of equal frequency, by the position of their first
  occurrence; the first six of them are joined with single spaces.
\<close>

fun runs_from :: "string \<Rightarrow> string \<Rightarrow> string list" where
  "runs_from cur [] = (if cur = [] then [] else [cur])"
| "runs_from cur (c # s) =
     (if is_az c then runs_from (cur @ [c]) s
      else (if cur = [] then [] else [cur]) @ runs_from [] s)"

definition alpha_runs :: "string \<Rightarrow> string list" where
  "alpha_runs s = runs_from [] s"

definition first_index :: "string list \<Rightarrow> string \<Rightarrow> nat" where
  "first_index ws w = length (takeWhile (\<lambda>v. v \<noteq> w) ws)"

definition idea_key_spec :: "string \<Rightarrow> string" where
  "idea_key_spec text =
     (let tokens = filter (\<lambda>w. 4 \<le> length w) (alpha_runs (lower text));
          words = filter (\<lambda>w. w \<notin> set STOPWORDS) tokens;
          ranked = sort_key (\<lambda>w. (- int (count_list words w), first_index words w))
                     (remdups words)
      in if words = [] then ''uncategorized'' else join '' '' (take 6 ranked))"

section \<open>Matched items and the running summary (shared by the adapters)\<close>

text \<open>
  An exception is a value: its class, as far as the source tells classes apart, and the
  message that \<open>str(exc)\<close> returns.  A function that can raise returns \<open>py_exception + 'a\<close>.
\<close>

datatype py_exception =
    RuntimeError string
  | ValueError string
  | TypeError string
  | OtherError string

fun exc_str :: "py_exception \<Rightarrow> string" where
  "exc_str (RuntimeError m) = m"
| "exc_str (ValueError m) = m"
| "exc_str (TypeError m) = m"
| "exc_str (OtherError m) = m"

text \<open>
  Instants are microseconds since the epoch, the resolution of \<open>datetime\<close>.  A text
  field that carries a time is one of: an ISO text that \<open>datetime.fromisoformat\<close> reads
  as a time with an offset, an ISO text it reads as a naive time, or any other text
  (the empty text included), which it rejects with \<open>ValueError\<close>.
\<close>

datatype time_text = IsoAware int | IsoNaive int | NotIso string

definition days_us :: "int \<Rightarrow> int" where
  "days_us d = d * 86400000000"

definition time_or :: "time_text option \<Rightarrow> time_text option \<Rightarrow> time_text option" where
  "time_or a b = (case a of None \<Rightarrow> b | Some (NotIso []) \<Rightarrow> b | Some t \<Rightarrow> Some t)"

definition time_or_empty :: "time_text option \<Rightarrow> time_text" where
  "time_or_empty a = (case a of None \<Rightarrow> NotIso [] | Some t \<Rightarrow> t)"

definition str_or :: "string option \<Rightarrow> string \<Rightarrow> string" where
  "str_or a b = (case a of None \<Rightarrow> b | Some s \<Rightarrow> if s = [] then b else s)"

record row =
  row_source :: string
  row_subreddit :: string
  row_type :: string
  row_id :: string
  row_created_utc :: time_text
  row_score :: int
  row_title :: string
  row_url :: string
  row_permalink :: string
  row_match_groups :: string
  row_willing_to_pay :: string
  row_idea_key :: string
  row_snippet :: string

definition is_space :: "char \<Rightarrow> bool" where
  "is_space c = (let n = (of_char c :: nat) in (9 \<le> n \<and> n \<le> 13) \<or> (28 \<le> n \<and> n \<le> 32))"

definition strip :: "string \<Rightarrow> string" where
  "strip s = rev (dropWhile is_space (rev (dropWhile is_space s)))"

definition snippet_of :: "string \<Rightarrow> string" where
  "snippet_of s = strip (map (\<lambda>c. if c = CHR 0x0A then CHR '' '' else c) (take 220 s))"

definition title_of :: "string \<Rightarrow> string" where
  "title_of s = (if 80 < length s then take 80 s @ ''...'' else s)"

definition yes_no :: "bool \<Rightarrow> string" where
  "yes_no pay = (if pay then ''yes'' else ''no'')"

text \<open>
  The block that follows every \<open>rows.append\<close> in the four adapters: the bucket of the
  idea key (a fresh one when the key is new) gets one more mention, one more pay mention
  when the item matched the \<open>pay\<close> category, the source and the bucket label, and the
  sample when it has none yet.
\<close>

definition add_to_summary ::
  "summary \<Rightarrow> string \<Rightarrow> bool \<Rightarrow> string \<Rightarrow> string \<Rightarrow> string \<Rightarrow> string \<Rightarrow> summary" where
  "add_to_summary summ key pay src label title url =
     (let b = look summ key;
          b1 = b\<lparr>mentions := mentions b + 1\<rparr>;
          b2 = (if pay then b1\<lparr>pay_mentions := pay_mentions b1 + 1\<rparr> else b1);
          b3 = b2\<lparr>sources := insert src (sources b2),
                   subreddits := insert label (subreddits b2)\<rparr>;
          b4 = (if sample_title b3 = []
                then b3\<lparr>sample_title := title, sample_url := url\<rparr> else b3)
      in AList.update key b4 summ)"

record stats =
  fetched_total :: int
  matched :: int

type_synonym rate_info = "string option \<times> string option \<times> string option"

text \<open>A loop over a list whose body can raise: the first exception ends it.\<close>

fun for_each :: "('a \<Rightarrow> 's \<Rightarrow> py_exception + 's) \<Rightarrow> 'a list \<Rightarrow> 's \<Rightarrow> py_exception + 's" where
  "for_each body [] st = Inr st"
| "for_each body (x # xs) st =
     (case body x st of Inl e \<Rightarrow> Inl e | Inr st' \<Rightarrow> for_each body xs st')"

section \<open>Reddit adapter (app/scanning.py, scan_subreddits)\<close>

record comment =
  c_id :: string
  c_created_utc :: int
  c_score :: int
  c_body :: string
  c_permalink :: string

text \<open>
  A submission as the client library hands it over.  \<open>s_comments\<close> is what
  \<open>submission.comments.list()\<close> yields after the call \<open>replace_more(limit=0)\<close>, or the
  exception that fetching the comments raised; both calls belong to the library.
\<close>

record submission =
  s_id :: string
  s_created_utc :: int
  s_score :: int
  s_title :: string
  s_selftext :: string
  s_url :: string
  s_permalink :: string
  s_comments :: "py_exception + comment list"

text \<open>The listing \<open>reddit.subreddit(name).new(limit=post_limit)\<close>, which can raise.\<close>

type_synonym reddit = "string \<Rightarrow> int \<Rightarrow> py_exception + submission list"

definition iter_comments :: "submission \<Rightarrow> int \<Rightarrow> py_exception + comment list" where
  "iter_comments sub limit =
     (case s_comments sub of
        Inl e \<Rightarrow> Inl e
      | Inr cs \<Rightarrow> Inr (if limit \<noteq> 0 then take (nat limit) cs else cs))"

text \<open>
  The local variables of an adapter run: the rows, the summary, the two counters of
  \<open>stats\<close> and, for the query-based adapters, the rate-limit entry of every query.
\<close>

record scan_state =
  st_rows :: "row list"
  st_summary :: summary
  st_fetched :: int
  st_matched :: int
  st_meta :: "(string \<times> rate_info) list"

definition empty_state :: scan_state where
  "empty_state =
     \<lparr>st_rows = [], st_summary = [], st_fetched = 0, st_matched = 0, st_meta = []\<rparr>"

definition keep_item :: "scan_state \<Rightarrow> row \<Rightarrow> bool \<Rightarrow> scan_state" where
  "keep_item st r pay =
     st\<lparr>st_rows := st_rows st @ [r],
        st_summary := add_to_summary (st_summary st) (row_idea_key r) pay (row_source r)
                        (row_subreddit r) (row_title r) (row_permalink r),
        st_matched := st_matched st + 1\<rparr>"

definition count_fetched :: "int \<Rightarrow> scan_state \<Rightarrow> scan_state" where
  "count_fetched n st = st\<lparr>st_fetched := st_fetched st + n\<rparr>"

definition reddit_comment ::
  "string \<Rightarrow> submission \<Rightarrow> int \<Rightarrow> bool \<Rightarrow> comment \<Rightarrow> scan_state \<Rightarrow> scan_state" where
  "reddit_comment name sub cutoff require_app_request c st =
     (if c_created_utc c < cutoff then st
      else
        let st1 = count_fetched 1 st;
            text_c = c_body c;
            groups_c = match_groups text_c compile_patterns
        in if require_app_request \<and> ''app_request'' \<notin> set groups_c then st1
           else if groups_c = [] then st1
           else
             let pay = (''pay'' \<in> set groups_c)
             in keep_item st1
                  \<lparr>row_source = ''Reddit'', row_subreddit = name, row_type = ''comment'',
                   row_id = c_id c, row_created_utc = IsoAware (c_created_utc c),
                   row_score = c_score c, row_title = s_title sub, row_url = s_url sub,
                   row_permalink = ''https://www.reddit.com'' @ c_permalink c,
                   row_match_groups = join '';'' groups_c,
                   row_willing_to_pay = yes_no pay, row_idea_key = idea_key text_c,
                   row_snippet = snippet_of text_c\<rparr> pay)"

definition reddit_submission ::
  "string \<Rightarrow> int \<Rightarrow> bool \<Rightarrow> int \<Rightarrow> bool \<Rightarrow> submission \<Rightarrow> scan_state
     \<Rightarrow> py_exception + scan_state" where
  "reddit_submission name cutoff include_comments comment_limit require_app_request sub st =
     (if s_created_utc sub < cutoff then Inr st
      else
        let st1 = count_fetched 1 st;
            text_s = join '' '' (filter (\<lambda>part. part \<noteq> []) [s_title sub, s_selftext sub]);
            groups0 = match_groups text_s compile_patterns;
            groups = (if require_app_request \<and> ''app_request'' \<notin> set groups0 then [] else groups0);
            pay = (''pay'' \<in> set groups);
            st2 = (if groups = [] then st1
                   else keep_item st1
                     \<lparr>row_source = ''Reddit'', row_subreddit = name, row_type = ''submission'',
                      row_id = s_id sub, row_created_utc = IsoAware (s_created_utc sub),
                      row_score = s_score sub, row_title = s_title sub, row_url = s_url sub,
                      row_permalink = ''https://www.reddit.com'' @ s_permalink sub,
                      row_match_groups = join '';'' groups,
                      row_willing_to_pay = yes_no pay, row_idea_key = idea_key text_s,
                      row_snippet = snippet_of (s_selftext sub)\<rparr> pay)
        in if include_comments
           then (case iter_comments sub comment_limit of
                   Inl e \<Rightarrow> Inl e
                 | Inr cs \<Rightarrow> Inr (fold (reddit_comment name sub cutoff require_app_request) cs st2))
           else Inr st2)"

definition reddit_subreddit ::
  "reddit \<Rightarrow> int \<Rightarrow> int \<Rightarrow> bool \<Rightarrow> int \<Rightarrow> bool \<Rightarrow> string \<Rightarrow> scan_state
     \<Rightarrow> py_exception + scan_state" where
  "reddit_subreddit client post_limit cutoff include_comments comment_limit require_app_request
       name st =
     (case client name post_limit of
        Inl e \<Rightarrow> Inl e
      | Inr subs \<Rightarrow>
          for_each (reddit_submission name cutoff include_comments comment_limit
                      require_app_request) subs st)"

text \<open>
  \<open>scan_subreddits\<close>; \<open>now\<close> is the reading of the clock from which the cutoff is
  computed once, before the loops.
\<close>

definition scan_subreddits ::
  "int \<Rightarrow> reddit \<Rightarrow> string list \<Rightarrow> int \<Rightarrow> int \<Rightarrow> bool \<Rightarrow> int \<Rightarrow> bool
     \<Rightarrow> py_exception + scan_state" where
  "scan_subreddits now client subreddit_names post_limit since_days include_comments
       comment_limit require_app_request =
     (let cutoff = now - days_us since_days
      in for_each (reddit_subreddit client post_limit cutoff include_comments comment_limit
                     require_app_request) subreddit_names empty_state)"

section \<open>String helpers of the query-based adapters\<close>

fun is_prefix :: "string \<Rightarrow> string \<Rightarrow> bool" where
  "is_prefix [] s = True"
| "is_prefix (c # cs) [] = False"
| "is_prefix (c # cs) (d # ds) = (c = d \<and> is_prefix cs ds)"

text \<open>\<open>needle in haystack\<close> for strings.\<close>

fun contains :: "string \<Rightarrow> string \<Rightarrow> bool" where
  "contains needle [] = (needle = [])"
| "contains needle (c # s) = (is_prefix needle (c # s) \<or> contains needle s)"

definition rstrip_slash :: "string \<Rightarrow> string" where
  "rstrip_slash s = rev (dropWhile (\<lambda>c. c = CHR ''/'') (rev s))"

definition digit_char :: "nat \<Rightarrow> char" where
  "digit_char d = char_of (48 + d)"

function str_nat :: "nat \<Rightarrow> string" where
  "str_nat n = (if n < 10 then [digit_char n] else str_nat (n div 10) @ [digit_char (n mod 10)])"
  by pat_completeness auto
termination
  by (relation "measure id") auto

definition str_int :: "int \<Rightarrow> string" where
  "str_int i = (if i < 0 then CHR ''-'' # str_nat (nat (- i)) else str_nat (nat i))"

text \<open>The slice \<open>xs[:n]\<close>, which counts from the end when \<open>n\<close> is negative.\<close>

definition slice_to :: "int \<Rightarrow> 'a list \<Rightarrow> 'a list" where
  "slice_to n xs = (if 0 \<le> n then take (nat n) xs else take (length xs - nat (- n)) xs)"

section \<open>X adapter (app/x_scanning.py)\<close>

record tweet =
  tw_id :: string
  tw_text :: string
  tw_created_at :: "time_text option"
  tw_like_count :: int
  tw_retweet_count :: int

text \<open>
  One request of \<open>fetch_recent_tweets\<close> and the provider's answer to it.  The fields
  \<open>xr_title\<close>, \<open>xr_detail\<close> and \<open>xr_type\<close> are those of the JSON body of an error answer,
  empty when the body has none or is not JSON.
\<close>

record x_request =
  xq_token :: string
  xq_query :: string
  xq_max_results :: int
  xq_start_time :: int
  xq_next_token :: "string option"

record x_response =
  xr_status :: int
  xr_title :: string
  xr_detail :: string
  xr_type :: string
  xr_text :: string
  xr_rate :: rate_info
  xr_data :: "tweet list"
  xr_next_token :: "string option"

type_synonym x_api = "x_request \<Rightarrow> py_exception + x_response"

definition load_x_token :: "string option \<Rightarrow> py_exception + string" where
  "load_x_token env_token =
     (case env_token of
        None \<Rightarrow> Inl (RuntimeError ''Missing environment variable: X_BEARER_TOKEN'')
      | Some t \<Rightarrow> if t = [] then Inl (RuntimeError ''Missing environment variable: X_BEARER_TOKEN'')
                  else Inr t)"

definition build_query :: "string \<Rightarrow> string \<Rightarrow> bool \<Rightarrow> string" where
  "build_query raw_query language include_retweets =
     join '' '' (filter (\<lambda>part. part \<noteq> [])
       ([strip raw_query]
        @ (if language \<noteq> [] then [''lang:'' @ language] else [])
        @ (if \<not> include_retweets then [''-is:retweet''] else [])))"

definition x_error :: "x_response \<Rightarrow> py_exception" where
  "x_error resp =
     (let error_text = lower (xr_title resp @ '' '' @ xr_detail resp @ '' '' @ xr_type resp)
      in if contains ''creditsdepleted'' error_text \<or> contains ''credits'' error_text
         then RuntimeError (''X_CREDITS_DEPLETED: ''
                @ (if xr_detail resp \<noteq> [] then xr_detail resp
                   else if xr_title resp \<noteq> [] then xr_title resp else xr_text resp))
         else if xr_status resp = 401 then RuntimeError ''X_AUTH_ERROR: Unauthorized''
         else RuntimeError (''X API error '' @ str_int (xr_status resp) @ '': '' @ xr_text resp))"

text \<open>
  The \<open>while True\<close> loop of \<open>fetch_recent_tweets\<close>.  Nothing bounds the number of pages
  a provider can answer with, so the loop is a partial function: \<open>None\<close> is the run that
  never returns.
\<close>

partial_function (option) fetch_pages ::
  "x_api \<Rightarrow> x_request \<Rightarrow> int \<Rightarrow> tweet list
     \<Rightarrow> (py_exception + tweet list \<times> rate_info) option" where
  "fetch_pages api req limit collected =
     (case api req of
        Inl e \<Rightarrow> Some (Inl e)
      | Inr resp \<Rightarrow>
          if xr_status resp \<noteq> 200 then Some (Inl (x_error resp))
          else
            let collected' = collected @ xr_data resp;
                next_token = xr_next_token resp
            in if next_token = None \<or> next_token = Some [] \<or> limit \<le> int (length collected')
               then Some (Inr (slice_to limit collected', xr_rate resp))
               else fetch_pages api (req\<lparr>xq_next_token := next_token\<rparr>) limit collected')"

declare fetch_pages.simps [code]

definition fetch_recent_tweets ::
  "int \<Rightarrow> x_api \<Rightarrow> string \<Rightarrow> string \<Rightarrow> int \<Rightarrow> int
     \<Rightarrow> (py_exception + tweet list \<times> rate_info) option" where
  "fetch_recent_tweets now api token query limit since_days =
     (let max_days = min (max since_days 1) 7;
          start_time = now - days_us max_days
      in fetch_pages api
           \<lparr>xq_token = token, xq_query = query, xq_max_results = min limit 100,
            xq_start_time = start_time, xq_next_token = None\<rparr> limit [])"

definition x_tweet :: "int \<Rightarrow> string \<Rightarrow> tweet \<Rightarrow> scan_state \<Rightarrow> scan_state" where
  "x_tweet now raw_query tw st =
     (let text_t = tw_text tw;
          groups = match_groups text_t compile_patterns
      in if groups = [] then st
         else
           let created_at = time_or_empty (time_or (tw_created_at tw) (Some (IsoAware now)));
               pay = (''pay'' \<in> set groups);
               link = ''https://x.com/i/web/status/'' @ tw_id tw
           in keep_item st
                \<lparr>row_source = ''X'', row_subreddit = ''query:'' @ raw_query, row_type = ''tweet'',
                 row_id = tw_id tw, row_created_utc = created_at,
                 row_score = tw_like_count tw + tw_retweet_count tw,
                 row_title = title_of text_t, row_url = link, row_permalink = link,
                 row_match_groups = join '';'' groups,
                 row_willing_to_pay = yes_no pay, row_idea_key = idea_key text_t,
                 row_snippet = snippet_of text_t\<rparr> pay)"

fun x_queries ::
  "int \<Rightarrow> x_api \<Rightarrow> string \<Rightarrow> int \<Rightarrow> int \<Rightarrow> string \<Rightarrow> bool \<Rightarrow> string list \<Rightarrow> scan_state
     \<Rightarrow> (py_exception + scan_state) option" where
  "x_queries now api token limit_per_query since_days language include_retweets [] st =
     Some (Inr st)"
| "x_queries now api token limit_per_query since_days language include_retweets
       (raw_query # rest) st =
     (case fetch_recent_tweets now api token
             (build_query raw_query language include_retweets) limit_per_query since_days of
        None \<Rightarrow> None
      | Some (Inl e) \<Rightarrow> Some (Inl e)
      | Some (Inr (tweets, rate_info)) \<Rightarrow>
          x_queries now api token limit_per_query since_days language include_retweets rest
            (fold (x_tweet now raw_query) tweets
               ((count_fetched (int (length tweets)) st)
                  \<lparr>st_meta := st_meta st @ [(raw_query, rate_info)]\<rparr>)))"

definition scan_x_queries ::
  "int \<Rightarrow> string option \<Rightarrow> x_api \<Rightarrow> string list \<Rightarrow> int \<Rightarrow> int \<Rightarrow> string \<Rightarrow> bool
     \<Rightarrow> (py_exception + scan_state) option" where
  "scan_x_queries now env_token api queries limit_per_query since_days language include_retweets =
     (case load_x_token env_token of
        Inl e \<Rightarrow> Some (Inl e)
      | Inr token \<Rightarrow>
          x_queries now api token limit_per_query since_days language include_retweets
            queries empty_state)"

section \<open>Bluesky adapter (app/bsky_scanning.py)\<close>

record bsky_post =
  bp_record_text :: "string option"
  bp_text :: "string option"
  bp_created_at :: "time_text option"
  bp_indexed_at :: "time_text option"
  bp_uri :: string
  bp_handle :: "string option"
  bp_cid :: "string option"
  bp_like_count :: int
  bp_repost_count :: int
  bp_reply_count :: int

record bsky_response =
  br_status :: int
  br_text :: string
  br_rate :: rate_info
  br_posts :: "bsky_post list"

text \<open>The request \<open>requests.get(url, params={q, limit, sort})\<close>, which can raise.\<close>

type_synonym bsky_api = "string \<Rightarrow> string \<Rightarrow> int \<Rightarrow> py_exception + bsky_response"

definition fetch_search_posts ::
  "bsky_api \<Rightarrow> string \<Rightarrow> string \<Rightarrow> int \<Rightarrow> py_exception + bsky_post list \<times> rate_info" where
  "fetch_search_posts api base_url query limit =
     (case api (rstrip_slash base_url @ ''/xrpc/app.bsky.feed.searchPosts'') query (min limit 100) of
        Inl e \<Rightarrow> Inl e
      | Inr resp \<Rightarrow>
          if br_status resp \<noteq> 200 then
            (if br_status resp = 401 then Inl (RuntimeError ''BSKY_AUTH_ERROR: Unauthorized'')
             else if br_status resp = 403
               then Inl (RuntimeError ''BSKY_FORBIDDEN: Access blocked (check VPN or base URL)'')
             else if br_status resp = 429
               then Inl (RuntimeError ''BSKY_RATE_LIMIT: Too Many Requests'')
             else Inl (RuntimeError (''BSKY_API_ERROR: '' @ str_int (br_status resp) @ '' ''
                                      @ br_text resp)))
          else Inr (br_posts resp, br_rate resp))"

definition build_post_url :: "bsky_post \<Rightarrow> string" where
  "build_post_url post =
     (let uri = bp_uri post
      in case bp_handle post of
           None \<Rightarrow> uri
         | Some handle \<Rightarrow>
             if uri \<noteq> [] \<and> handle \<noteq> [] \<and> contains ''/app.bsky.feed.post/'' uri
             then ''https://bsky.app/profile/'' @ handle @ ''/post/''
                    @ rev (takeWhile (\<lambda>c. c \<noteq> CHR ''/'') (rev uri))
             else uri)"

definition bsky_post_step :: "string \<Rightarrow> bsky_post \<Rightarrow> scan_state \<Rightarrow> scan_state" where
  "bsky_post_step raw_query post st =
     (let text_p = str_or (bp_record_text post) (str_or (bp_text post) [])
      in if text_p = [] then st
         else
           let groups = match_groups text_p compile_patterns
           in if groups = [] then st
              else
                let created_at = time_or (bp_created_at post) (bp_indexed_at post);
                    url = build_post_url post;
                    pay = (''pay'' \<in> set groups)
                in keep_item st
                     \<lparr>row_source = ''Bluesky'', row_subreddit = ''bsky:'' @ raw_query,
                      row_type = ''post'', row_id = str_or (bp_cid post) (bp_uri post),
                      row_created_utc = time_or_empty created_at,
                      row_score = bp_like_count post + bp_repost_count post + bp_reply_count post,
                      row_title = title_of text_p, row_url = url, row_permalink = url,
                      row_match_groups = join '';'' groups,
                      row_willing_to_pay = yes_no pay, row_idea_key = idea_key text_p,
                      row_snippet = snippet_of text_p\<rparr> pay)"

definition bsky_query ::
  "bsky_api \<Rightarrow> string \<Rightarrow> int \<Rightarrow> string \<Rightarrow> scan_state \<Rightarrow> py_exception + scan_state" where
  "bsky_query api base_url limit_per_query raw_query st =
     (case fetch_search_posts api base_url raw_query limit_per_query of
        Inl e \<Rightarrow> Inl e
      | Inr (posts, rate_info) \<Rightarrow>
          Inr (fold (bsky_post_step raw_query) posts
                 ((count_fetched (int (length posts)) st)
                    \<lparr>st_meta := st_meta st @ [(raw_query, rate_info)]\<rparr>)))"

definition scan_bsky_queries ::
  "bsky_api \<Rightarrow> string list \<Rightarrow> int \<Rightarrow> string \<Rightarrow> py_exception + scan_state" where
  "scan_bsky_queries api queries limit_per_query base_url =
     for_each (bsky_query api base_url limit_per_query) queries empty_state"

section \<open>Mastodon adapter (app/mastodon_scanning.py)\<close>

record status =
  ms_id :: "string option"
  ms_created_at :: "time_text option"
  ms_content :: string
  ms_favourites_count :: int
  ms_reblogs_count :: int
  ms_replies_count :: int
  ms_url :: "string option"
  ms_uri :: "string option"

record mastodon_response =
  mr_status :: int
  mr_text :: string
  mr_rate :: rate_info
  mr_statuses :: "status list"

text \<open>The request, with the bearer token when one is configured.\<close>

type_synonym mastodon_api =
  "string \<Rightarrow> string \<Rightarrow> int \<Rightarrow> string option \<Rightarrow> py_exception + mastodon_response"

text \<open>
  \<open>re.sub(r"<[^>]+>", "", value)\<close>: a tag runs from a \<open><\<close> to the next \<open>>\<close> and has at
  least one character in between.
\<close>

function strip_tags :: "string \<Rightarrow> string" where
  "strip_tags [] = []"
| "strip_tags (c # s) =
     (let inner = takeWhile (\<lambda>d. d \<noteq> CHR ''>'') s;
          rest = drop (length inner) s
      in if c = CHR ''<'' \<and> inner \<noteq> [] \<and> rest \<noteq> [] then strip_tags (tl rest)
         else c # strip_tags s)"
  by pat_completeness auto
termination
  by (relation "measure length") auto

text \<open>
  \<open>strip_html\<close>; the table of HTML entities behind \<open>html.unescape\<close> belongs to the
  standard library and is the parameter \<open>unescape\<close>.
\<close>

definition strip_html :: "(string \<Rightarrow> string) \<Rightarrow> string \<Rightarrow> string" where
  "strip_html unescape v = (if v = [] then [] else strip (unescape (strip_tags v)))"

definition fetch_statuses ::
  "mastodon_api \<Rightarrow> string \<Rightarrow> string \<Rightarrow> int \<Rightarrow> string option
     \<Rightarrow> py_exception + status list \<times> rate_info" where
  "fetch_statuses api instance_url query limit token =
     (case api (rstrip_slash instance_url @ ''/api/v2/search'') query (min limit 40)
             (case token of None \<Rightarrow> None | Some t \<Rightarrow> if t = [] then None else Some t) of
        Inl e \<Rightarrow> Inl e
      | Inr resp \<Rightarrow>
          if mr_status resp \<noteq> 200 then
            (if mr_status resp = 401 then Inl (RuntimeError ''MASTODON_AUTH_ERROR: Unauthorized'')
             else if mr_status resp = 429
               then Inl (RuntimeError ''MASTODON_RATE_LIMIT: Too Many Requests'')
             else Inl (RuntimeError (''MASTODON_API_ERROR: '' @ str_int (mr_status resp) @ '' ''
                                      @ mr_text resp)))
          else Inr (mr_statuses resp, mr_rate resp))"

text \<open>
  The cutoff test of one status: \<open>True\<close> when the status is skipped.  A text that is no
  ISO time raises \<open>ValueError\<close>, which the source passes over; a naive time cannot be
  compared with the cutoff and raises \<open>TypeError\<close>, which the source does not catch.
\<close>

definition mastodon_too_old :: "int option \<Rightarrow> time_text option \<Rightarrow> py_exception + bool" where
  "mastodon_too_old cutoff created_at =
     (case cutoff of
        None \<Rightarrow> Inr False
      | Some c \<Rightarrow>
          (case created_at of
             None \<Rightarrow> Inr False
           | Some (NotIso _) \<Rightarrow> Inr False
           | Some (IsoNaive _) \<Rightarrow>
               Inl (TypeError ''can't compare offset-naive and offset-aware datetimes'')
           | Some (IsoAware t) \<Rightarrow> Inr (t < c)))"

definition mastodon_status ::
  "(string \<Rightarrow> string) \<Rightarrow> int option \<Rightarrow> string \<Rightarrow> status \<Rightarrow> scan_state
     \<Rightarrow> py_exception + scan_state" where
  "mastodon_status unescape cutoff raw_query s st =
     (case mastodon_too_old cutoff (ms_created_at s) of
        Inl e \<Rightarrow> Inl e
      | Inr True \<Rightarrow> Inr st
      | Inr False \<Rightarrow>
          let text_s = strip_html unescape (ms_content s)
          in if text_s = [] then Inr st
             else
               let groups = match_groups text_s compile_patterns
               in if groups = [] then Inr st
                  else
                    let pay = (''pay'' \<in> set groups);
                        url = str_or (ms_url s) (str_or (ms_uri s) [])
                    in Inr (keep_item st
                         \<lparr>row_source = ''Mastodon'', row_subreddit = ''mastodon:'' @ raw_query,
                          row_type = ''status'', row_id = str_or (ms_id s) [],
                          row_created_utc = time_or_empty (ms_created_at s),
                          row_score = ms_favourites_count s + ms_reblogs_count s
                                        + ms_replies_count s,
                          row_title = title_of text_s, row_url = url, row_permalink = url,
                          row_match_groups = join '';'' groups,
                          row_willing_to_pay = yes_no pay, row_idea_key = idea_key text_s,
                          row_snippet = snippet_of text_s\<rparr> pay))"

definition mastodon_query ::
  "mastodon_api \<Rightarrow> (string \<Rightarrow> string) \<Rightarrow> int option \<Rightarrow> string \<Rightarrow> int \<Rightarrow> string option
     \<Rightarrow> string \<Rightarrow> scan_state \<Rightarrow> py_exception + scan_state" where
  "mastodon_query api unescape cutoff instance_url limit_per_query token raw_query st =
     (case fetch_statuses api instance_url raw_query limit_per_query token of
        Inl e \<Rightarrow> Inl e
      | Inr (statuses, rate_info) \<Rightarrow>
          for_each (mastodon_status unescape cutoff raw_query) statuses
            ((count_fetched (int (length statuses)) st)
               \<lparr>st_meta := st_meta st @ [(raw_query, rate_info)]\<rparr>))"

definition scan_mastodon_queries ::
  "int \<Rightarrow> mastodon_api \<Rightarrow> (string \<Rightarrow> string) \<Rightarrow> string list \<Rightarrow> int \<Rightarrow> string \<Rightarrow> int
     \<Rightarrow> string option \<Rightarrow> py_exception + scan_state" where
  "scan_mastodon_queries now api unescape queries limit_per_query instance_url since_days token =
     (let cutoff = (if since_days \<noteq> 0 \<and> 0 < since_days then Some (now - days_us since_days)
                    else None)
      in for_each (mastodon_query api unescape cutoff instance_url limit_per_query token)
           queries empty_state)"

section \<open>Persistence (app/db.py) as explicit state\<close>

text \<open>
  The tables the orchestrator and the scheduler touch.  \<open>scan_configs\<close> and \<open>schedules\<close>
  have the organization id as primary key and are association lists in row order; the
  other tables are lists of rows, \<open>db_scan_seq\<close> being the last id that \<open>AUTOINCREMENT\<close>
  handed out for \<open>scans\<close>.  Integer flags are stored as integers, as in the schema.
\<close>

record scan_config =
  cfg_subreddits :: string
  cfg_since_days :: int
  cfg_post_limit :: int
  cfg_include_comments :: int
  cfg_comment_limit :: int
  cfg_require_app_request :: int
  cfg_x_enabled :: int
  cfg_x_queries :: string
  cfg_x_since_days :: int
  cfg_x_post_limit :: int
  cfg_x_language :: string
  cfg_x_include_retweets :: int
  cfg_bsky_enabled :: int
  cfg_bsky_queries :: string
  cfg_bsky_post_limit :: int
  cfg_bsky_base_url :: string
  cfg_mastodon_enabled :: int
  cfg_mastodon_instance :: string
  cfg_mastodon_queries :: string
  cfg_mastodon_post_limit :: int
  cfg_mastodon_since_days :: int

record schedule =
  interval_hours :: int
  last_run_utc :: "time_text option"

record scan_header =
  sc_id :: nat
  sc_org_id :: nat
  sc_created_utc :: int
  sc_reddit_rate_limit :: "string option"
  sc_x_rate_limit :: "(string \<times> rate_info) list option"
  sc_reddit_fetched :: int
  sc_reddit_matched :: int
  sc_x_fetched :: int
  sc_x_matched :: int
  sc_warnings :: "string list option"
  sc_bsky_rate_limit :: "(string \<times> rate_info) list option"
  sc_bsky_fetched :: int
  sc_bsky_matched :: int
  sc_mastodon_rate_limit :: "(string \<times> rate_info) list option"
  sc_mastodon_fetched :: int
  sc_mastodon_matched :: int

record database =
  db_configs :: "(nat \<times> scan_config) list"
  db_schedules :: "(nat \<times> schedule) list"
  db_scan_seq :: nat
  db_scans :: "scan_header list"
  db_scan_results :: "(nat \<times> row) list"
  db_idea_summaries :: "(nat \<times> string \<times> bucket) list"

section \<open>Scan orchestrator (app/main.py, run_scan_for_org)\<close>

definition DEFAULT_SUBREDDITS :: "string list" where
  "DEFAULT_SUBREDDITS =
     [''Entrepreneur'', ''startups'', ''smallbusiness'', ''SideProject'', ''SaaS'',
      ''EntrepreneurRideAlong'', ''androidapps'', ''iosapps'']"

definition DEFAULT_BSKY_BASE_URL :: string where
  "DEFAULT_BSKY_BASE_URL = ''https://public.api.bsky.app''"

definition DEFAULT_MASTODON_INSTANCE :: string where
  "DEFAULT_MASTODON_INSTANCE = ''https://mastodon.social''"

definition default_config :: scan_config where
  "default_config =
     \<lparr>cfg_subreddits = join '','' DEFAULT_SUBREDDITS, cfg_since_days = 30, cfg_post_limit = 200,
      cfg_include_comments = 1, cfg_comment_limit = 200, cfg_require_app_request = 0,
      cfg_x_enabled = 0, cfg_x_queries = ''app for,tool for,looking for'', cfg_x_since_days = 7,
      cfg_x_post_limit = 100, cfg_x_language = ''en'', cfg_x_include_retweets = 0,
      cfg_bsky_enabled = 0, cfg_bsky_queries = ''app for,looking for'',
      cfg_bsky_post_limit = 100, cfg_bsky_base_url = DEFAULT_BSKY_BASE_URL,
      cfg_mastodon_enabled = 0, cfg_mastodon_instance = DEFAULT_MASTODON_INSTANCE,
      cfg_mastodon_queries = ''app for,looking for'', cfg_mastodon_post_limit = 40,
      cfg_mastodon_since_days = 7\<rparr>"

text \<open>
  \<open>ensure_org_config\<close>.  Each \<open>execute\<close> commits on its own, so when the insert into
  \<open>schedules\<close> hits an existing row the default configuration stays stored and the
  integrity error propagates together with that database.
\<close>

definition ensure_org_config ::
  "nat \<Rightarrow> database \<Rightarrow> py_exception \<times> database + scan_config \<times> database" where
  "ensure_org_config org db =
     (case (map_of (db_configs db) org, map_of (db_schedules db) org) of
        (Some config, Some sched) \<Rightarrow> Inr (config, db)
      | (Some config, None) \<Rightarrow>
          Inr (config,
               db\<lparr>db_schedules := db_schedules db
                      @ [(org, \<lparr>interval_hours = 0, last_run_utc = None\<rparr>)]\<rparr>)
      | (None, sched) \<Rightarrow>
          let db1 = db\<lparr>db_configs := db_configs db @ [(org, default_config)]\<rparr>
          in (case sched of
                Some _ \<Rightarrow> Inl (OtherError ''UNIQUE constraint failed: schedules.org_id'', db1)
              | None \<Rightarrow>
                  Inr (default_config,
                       db1\<lparr>db_schedules := db_schedules db1
                              @ [(org, \<lparr>interval_hours = 0, last_run_utc = None\<rparr>)]\<rparr>)))"

text \<open>\<open>s.split(sep)\<close> for a one-character separator, and the comprehension over it.\<close>

fun split_on :: "char \<Rightarrow> string \<Rightarrow> string list" where
  "split_on sep [] = [[]]"
| "split_on sep (c # s) =
     (if c = sep then [] # split_on sep s
      else (case split_on sep s of [] \<Rightarrow> [[c]] | w # ws \<Rightarrow> (c # w) # ws))"

definition stripped_parts :: "string \<Rightarrow> string list" where
  "stripped_parts s = filter (\<lambda>p. p \<noteq> []) (map strip (split_on (CHR '','') s))"

text \<open>
  What the process reads from outside the database during one run: the clock, the
  credentials, and the providers behind the four adapters.  \<open>env_reddit\<close> is the result of
  \<open>load_reddit()\<close>; \<open>env_reddit_limits\<close> is \<open>reddit.auth.limits\<close> serialised, empty when
  it is empty or raises.
\<close>

record env =
  env_now :: int
  env_reddit :: "py_exception + reddit"
  env_reddit_limits :: string
  env_x_token :: "string option"
  env_x_api :: x_api
  env_bsky_api :: bsky_api
  env_mastodon_api :: mastodon_api
  env_mastodon_token :: "string option"
  env_unescape :: "string \<Rightarrow> string"

text \<open>The local variables of \<open>run_scan_for_org\<close>.\<close>

record orch =
  o_rows :: "row list"
  o_summary :: summary
  o_warnings :: "string list"
  o_reddit_meta :: "string option"
  o_x_meta :: "(string \<times> rate_info) list option"
  o_bsky_meta :: "(string \<times> rate_info) list option"
  o_mastodon_meta :: "(string \<times> rate_info) list option"
  o_reddit_stats :: "int \<times> int"
  o_x_stats :: "int \<times> int"
  o_bsky_stats :: "int \<times> int"
  o_mastodon_stats :: "int \<times> int"

definition orch_init :: orch where
  "orch_init =
     \<lparr>o_rows = [], o_summary = [], o_warnings = [], o_reddit_meta = None, o_x_meta = None,
      o_bsky_meta = None, o_mastodon_meta = None, o_reddit_stats = (0, 0), o_x_stats = (0, 0),
      o_bsky_stats = (0, 0), o_mastodon_stats = (0, 0)\<rparr>"

text \<open>\<open>rows.extend(adapter_rows); merge_summaries(summary, adapter_summary)\<close>.\<close>

definition take_over :: "scan_state \<Rightarrow> orch \<Rightarrow> orch" where
  "take_over st acc =
     acc\<lparr>o_rows := o_rows acc @ st_rows st,
       o_summary := merge_summaries (o_summary acc) (st_summary st)\<rparr>"

definition warn :: "string \<Rightarrow> orch \<Rightarrow> orch" where
  "warn w acc = acc\<lparr>o_warnings := o_warnings acc @ [w]\<rparr>"

definition reddit_attempted :: "scan_config \<Rightarrow> bool" where
  "reddit_attempted config = (stripped_parts (cfg_subreddits config) \<noteq> [])"

definition reddit_outcome :: "env \<Rightarrow> scan_config \<Rightarrow> py_exception + scan_state" where
  "reddit_outcome e config =
     (case env_reddit e of
        Inl exc \<Rightarrow> Inl exc
      | Inr client \<Rightarrow>
          scan_subreddits (env_now e) client (stripped_parts (cfg_subreddits config))
            (cfg_post_limit config) (cfg_since_days config) (cfg_include_comments config \<noteq> 0)
            (cfg_comment_limit config) (cfg_require_app_request config \<noteq> 0))"

definition reddit_step :: "env \<Rightarrow> scan_config \<Rightarrow> orch \<Rightarrow> orch" where
  "reddit_step e config acc =
     (if reddit_attempted config then
        (case reddit_outcome e config of
           Inr st \<Rightarrow>
             (take_over st acc)
               \<lparr>o_reddit_stats := (st_fetched st, st_matched st),
                o_reddit_meta := (if env_reddit_limits e = [] then None
                                  else Some (env_reddit_limits e))\<rparr>
         | Inl exc \<Rightarrow> warn (''Reddit scan skipped: '' @ exc_str exc) acc)
      else acc)"

definition x_attempted :: "scan_config \<Rightarrow> bool" where
  "x_attempted config =
     (cfg_x_enabled config \<noteq> 0 \<and> cfg_x_queries config \<noteq> []
      \<and> stripped_parts (cfg_x_queries config) \<noteq> [])"

definition x_outcome :: "env \<Rightarrow> scan_config \<Rightarrow> (py_exception + scan_state) option" where
  "x_outcome e config =
     scan_x_queries (env_now e) (env_x_token e) (env_x_api e)
       (stripped_parts (cfg_x_queries config)) (cfg_x_post_limit config)
       (cfg_x_since_days config) (cfg_x_language config) (cfg_x_include_retweets config \<noteq> 0)"

definition x_warning :: "py_exception \<Rightarrow> string" where
  "x_warning exc =
     (let message = exc_str exc
      in if contains ''X_CREDITS_DEPLETED'' message
         then ''X credits depleted. Add credits in your X developer portal to fetch data.''
         else if contains ''X_AUTH_ERROR'' message \<or> contains ''401'' message
         then ''X authentication failed. Check your bearer token and plan access.''
         else ''X scan skipped: '' @ message)"

definition x_step :: "env \<Rightarrow> scan_config \<Rightarrow> orch \<Rightarrow> orch option" where
  "x_step e config acc =
     (if x_attempted config then
        (case x_outcome e config of
           None \<Rightarrow> None
         | Some (Inr st) \<Rightarrow>
             Some ((take_over st acc)
                     \<lparr>o_x_stats := (st_fetched st, int (length (st_rows st))),
                      o_x_meta := Some (st_meta st)\<rparr>)
         | Some (Inl exc) \<Rightarrow> Some (warn (x_warning exc) acc))
      else Some acc)"

definition bsky_attempted :: "scan_config \<Rightarrow> bool" where
  "bsky_attempted config =
     (cfg_bsky_enabled config \<noteq> 0 \<and> cfg_bsky_queries config \<noteq> []
      \<and> stripped_parts (cfg_bsky_queries config) \<noteq> [])"

definition bsky_outcome :: "env \<Rightarrow> scan_config \<Rightarrow> py_exception + scan_state" where
  "bsky_outcome e config =
     scan_bsky_queries (env_bsky_api e) (stripped_parts (cfg_bsky_queries config))
       (cfg_bsky_post_limit config)
       (if cfg_bsky_base_url config = [] then DEFAULT_BSKY_BASE_URL
        else cfg_bsky_base_url config)"

definition bsky_warning :: "py_exception \<Rightarrow> string" where
  "bsky_warning exc =
     (let message = exc_str exc
      in if contains ''BSKY_RATE_LIMIT'' message
         then ''Bluesky rate limit reached. Try again later.''
         else if contains ''BSKY_AUTH_ERROR'' message
         then ''Bluesky auth failed. Check your endpoint.''
         else if contains ''BSKY_FORBIDDEN'' message
         then ''Bluesky request blocked (403). Check VPN, firewall, or base URL.''
         else ''Bluesky scan skipped: '' @ message)"

definition bsky_step :: "env \<Rightarrow> scan_config \<Rightarrow> orch \<Rightarrow> orch" where
  "bsky_step e config acc =
     (if bsky_attempted config then
        (case bsky_outcome e config of
           Inr st \<Rightarrow>
             (take_over st acc)
               \<lparr>o_bsky_stats := (st_fetched st, int (length (st_rows st))),
                o_bsky_meta := Some (st_meta st)\<rparr>
         | Inl exc \<Rightarrow> warn (bsky_warning exc) acc)
      else acc)"

definition mastodon_attempted :: "scan_config \<Rightarrow> bool" where
  "mastodon_attempted config =
     (cfg_mastodon_enabled config \<noteq> 0 \<and> cfg_mastodon_queries config \<noteq> []
      \<and> stripped_parts (cfg_mastodon_queries config) \<noteq> [])"

definition mastodon_outcome :: "env \<Rightarrow> scan_config \<Rightarrow> py_exception + scan_state" where
  "mastodon_outcome e config =
     scan_mastodon_queries (env_now e) (env_mastodon_api e) (env_unescape e)
       (stripped_parts (cfg_mastodon_queries config)) (cfg_mastodon_post_limit config)
       (if cfg_mastodon_instance config = [] then DEFAULT_MASTODON_INSTANCE
        else cfg_mastodon_instance config)
       (cfg_mastodon_since_days config) (env_mastodon_token e)"

definition mastodon_warning :: "py_exception \<Rightarrow> string" where
  "mastodon_warning exc =
     (let message = exc_str exc
      in if contains ''MASTODON_RATE_LIMIT'' message
         then ''Mastodon rate limit reached. Try again later.''
         else if contains ''MASTODON_AUTH_ERROR'' message
         then ''Mastodon auth failed. Check your token or instance.''
         else ''Mastodon scan skipped: '' @ message)"

definition mastodon_step :: "env \<Rightarrow> scan_config \<Rightarrow> orch \<Rightarrow> orch" where
  "mastodon_step e config acc =
     (if mastodon_attempted config then
        (case mastodon_outcome e config of
           Inr st \<Rightarrow>
             (take_over st acc)
               \<lparr>o_mastodon_stats := (st_fetched st, int (length (st_rows st))),
                o_mastodon_meta := Some (st_meta st)\<rparr>
         | Inl exc \<Rightarrow> warn (mastodon_warning exc) acc)
      else acc)"

text \<open>
  The four guarded adapter calls in the order of the source.  Only the X adapter has an
  unbounded loop, so only it can keep the run from returning.
\<close>

definition collect :: "env \<Rightarrow> scan_config \<Rightarrow> orch option" where
  "collect e config =
     (case x_step e config (reddit_step e config orch_init) of
        None \<Rightarrow> None
      | Some acc \<Rightarrow> Some (mastodon_step e config (bsky_step e config acc)))"

text \<open>
  The three inserts of the closing transaction: the header (its id is the next value of
  the sequence), one row per matched item and one row per idea key.
\<close>

definition persist :: "env \<Rightarrow> nat \<Rightarrow> orch \<Rightarrow> database \<Rightarrow> database \<times> nat" where
  "persist e org acc db =
     (let scan_id = db_scan_seq db + 1;
          header =
            \<lparr>sc_id = scan_id, sc_org_id = org, sc_created_utc = env_now e,
             sc_reddit_rate_limit = o_reddit_meta acc, sc_x_rate_limit = o_x_meta acc,
             sc_reddit_fetched = fst (o_reddit_stats acc), sc_reddit_matched = snd (o_reddit_stats acc),
             sc_x_fetched = fst (o_x_stats acc), sc_x_matched = snd (o_x_stats acc),
             sc_warnings = (if o_warnings acc = [] then None else Some (o_warnings acc)),
             sc_bsky_rate_limit = o_bsky_meta acc,
             sc_bsky_fetched = fst (o_bsky_stats acc), sc_bsky_matched = snd (o_bsky_stats acc),
             sc_mastodon_rate_limit = o_mastodon_meta acc,
             sc_mastodon_fetched = fst (o_mastodon_stats acc),
             sc_mastodon_matched = snd (o_mastodon_stats acc)\<rparr>
      in (db\<lparr>db_scan_seq := scan_id,
             db_scans := db_scans db @ [header],
             db_scan_results := db_scan_results db @ map (\<lambda>r. (scan_id, r)) (o_rows acc),
             db_idea_summaries := db_idea_summaries db
                @ map (\<lambda>(key, data). (scan_id, key, data)) (o_summary acc)\<rparr>,
          scan_id))"

text \<open>
  \<open>run_scan_for_org\<close>.  The result is \<open>None\<close> when the run does not return; otherwise the
  exception that escaped with the database it left behind, or the new database with the
  returned tuple \<open>(scan_id, len(rows), len(summary), warnings)\<close>.
\<close>

definition run_scan_for_org ::
  "env \<Rightarrow> nat \<Rightarrow> database
     \<Rightarrow> (py_exception \<times> database + database \<times> nat \<times> nat \<times> nat \<times> string list) option" where
  "run_scan_for_org e org db =
     (case (case map_of (db_configs db) org of
              Some config \<Rightarrow> Inr (config, db)
            | None \<Rightarrow> ensure_org_config org db) of
        Inl failure \<Rightarrow> Some (Inl failure)
      | Inr (config, db1) \<Rightarrow>
          (case collect e config of
             None \<Rightarrow> None
           | Some acc \<Rightarrow>
               let (db2, scan_id) = persist e org acc db1
               in Some (Inr (db2, scan_id, length (o_rows acc), length (o_summary acc),
                             o_warnings acc))))"

text \<open>The rows and the idea summaries that a scan owns, read back from the tables.\<close>

definition scan_rows :: "database \<Rightarrow> nat \<Rightarrow> row list" where
  "scan_rows db scan_id = map snd (filter (\<lambda>r. fst r = scan_id) (db_scan_results db))"

definition scan_summaries :: "database \<Rightarrow> nat \<Rightarrow> (string \<times> bucket) list" where
  "scan_summaries db scan_id =
     map snd (filter (\<lambda>r. fst r = scan_id) (db_idea_summaries db))"

definition scan_of :: "database \<Rightarrow> nat \<Rightarrow> scan_header option" where
  "scan_of db scan_id = find (\<lambda>h. sc_id h = scan_id) (db_scans db)"

section \<open>Scheduler (app/main.py, run_due_scans)\<close>

text \<open>
  The due test of one schedule at the clock reading \<open>now\<close>: \<open>Inr True\<close> when the
  orchestrator is to be invoked.  A stored \<open>last_run_utc\<close> that is no ISO time makes
  \<open>fromisoformat\<close> raise, and a naive one makes the subtraction raise; neither is caught.
  \<open>delta_hours < interval\<close> is compared in microseconds.
\<close>

definition is_due :: "int \<Rightarrow> schedule \<Rightarrow> py_exception + bool" where
  "is_due now s =
     (if interval_hours s \<le> 0 then Inr False
      else
        (case last_run_utc s of
           None \<Rightarrow> Inr True
         | Some (NotIso t) \<Rightarrow>
             if t = [] then Inr True else Inl (ValueError ''Invalid isoformat string'')
         | Some (IsoNaive _) \<Rightarrow>
             Inl (TypeError ''can't subtract offset-naive and offset-aware datetimes'')
         | Some (IsoAware last_dt) \<Rightarrow>
             Inr (\<not> (now - last_dt < interval_hours s * 3600000000))))"

datatype tick_event = Skipped nat | Succeeded nat | Failed nat

text \<open>
  The orchestrator as the scheduler sees it: called with an organization id on the
  current database, it does not return (\<open>None\<close>), raises, or returns; either way it
  leaves a database behind.
\<close>

type_synonym runner = "nat \<Rightarrow> database \<Rightarrow> (py_exception \<times> database + database) option"

definition set_last_run :: "nat \<Rightarrow> int \<Rightarrow> database \<Rightarrow> database" where
  "set_last_run org now db =
     db\<lparr>db_schedules :=
          map (\<lambda>(k, s). if k = org then (k, s\<lparr>last_run_utc := Some (IsoAware now)\<rparr>) else (k, s))
            (db_schedules db)\<rparr>"

text \<open>
  The loop of \<open>run_due_scans\<close> over the schedules fetched at the start of the tick.
  \<open>clock org\<close> is the clock reading taken in the iteration of that organization.  The
  events record, in order, what happened to each schedule.
\<close>

fun tick_loop ::
  "runner \<Rightarrow> (nat \<Rightarrow> int) \<Rightarrow> (nat \<times> schedule) list \<Rightarrow> database \<Rightarrow> tick_event list
     \<Rightarrow> (py_exception \<times> database \<times> tick_event list + database \<times> tick_event list) option" where
  "tick_loop run clock [] db events = Some (Inr (db, events))"
| "tick_loop run clock ((org, s) # rest) db events =
     (case is_due (clock org) s of
        Inl exc \<Rightarrow> Some (Inl (exc, db, events))
      | Inr False \<Rightarrow> tick_loop run clock rest db (events @ [Skipped org])
      | Inr True \<Rightarrow>
          (case run org db of
             None \<Rightarrow> None
           | Some (Inl (exc, db1)) \<Rightarrow> tick_loop run clock rest db1 (events @ [Failed org])
           | Some (Inr db1) \<Rightarrow>
               tick_loop run clock rest (set_last_run org (clock org) db1)
                 (events @ [Succeeded org])))"

definition run_due_scans_with ::
  "runner \<Rightarrow> (nat \<Rightarrow> int) \<Rightarrow> database
     \<Rightarrow> (py_exception \<times> database \<times> tick_event list + database \<times> tick_event list) option" where
  "run_due_scans_with run clock db = tick_loop run clock (db_schedules db) db []"

definition orchestrator :: "(nat \<Rightarrow> env) \<Rightarrow> runner" where
  "orchestrator envs org db =
     (case run_scan_for_org (envs org) org db of
        None \<Rightarrow> None
      | Some (Inl failure) \<Rightarrow> Some (Inl failure)
      | Some (Inr (db1, result)) \<Rightarrow> Some (Inr db1))"

definition run_due_scans ::
  "(nat \<Rightarrow> env) \<Rightarrow> (nat \<Rightarrow> int) \<Rightarrow> database
     \<Rightarrow> (py_exception \<times> database \<times> tick_event list + database \<times> tick_event list) option" where
  "run_due_scans envs clock db = run_due_scans_with (orchestrator envs) clock db"

section \<open>Vocabulary of the scan invariants\<close>

text \<open>
  An adapter state is in step when the mentions of its summary add up to the number of
  its rows and every bucket respects \<open>pay_mentions \<le> mentions\<close>.
\<close>

definition synced :: "scan_state \<Rightarrow> bool" where
  "synced st \<longleftrightarrow> total_mentions (st_summary st) = int (length (st_rows st))
                 \<and> pay_bounded (st_summary st)"

text \<open>What the rows of each adapter have in common.\<close>

definition reddit_row :: "int \<Rightarrow> row \<Rightarrow> bool" where
  "reddit_row cutoff r \<longleftrightarrow>
     row_source r = ''Reddit'' \<and> (\<exists>t. row_created_utc r = IsoAware t \<and> cutoff \<le> t)"

definition x_row :: "row \<Rightarrow> bool" where
  "x_row r \<longleftrightarrow> row_source r = ''X''"

definition bsky_row :: "row \<Rightarrow> bool" where
  "bsky_row r \<longleftrightarrow> row_source r = ''Bluesky''"

definition mastodon_row :: "int option \<Rightarrow> row \<Rightarrow> bool" where
  "mastodon_row cutoff r \<longleftrightarrow>
     row_source r = ''Mastodon''
     \<and> (case cutoff of None \<Rightarrow> True
         | Some c \<Rightarrow> (case row_created_utc r of IsoAware t \<Rightarrow> c \<le> t | _ \<Rightarrow> True))"

text \<open>
  What one source hands to the scan: its rows when the adapter returned, its warning when
  the adapter raised, nothing when it was not attempted.
\<close>

definition reddit_part :: "env \<Rightarrow> scan_config \<Rightarrow> row list \<times> string list" where
  "reddit_part e config =
     (if reddit_attempted config then
        (case reddit_outcome e config of
           Inr st \<Rightarrow> (st_rows st, [])
         | Inl exc \<Rightarrow> ([], [''Reddit scan skipped: '' @ exc_str exc]))
      else ([], []))"

definition x_part :: "env \<Rightarrow> scan_config \<Rightarrow> row list \<times> string list" where
  "x_part e config =
     (if x_attempted config then
        (case x_outcome e config of
           Some (Inr st) \<Rightarrow> (st_rows st, [])
         | Some (Inl exc) \<Rightarrow> ([], [x_warning exc])
         | None \<Rightarrow> ([], []))
      else ([], []))"

definition bsky_part :: "env \<Rightarrow> scan_config \<Rightarrow> row list \<times> string list" where
  "bsky_part e config =
     (if bsky_attempted config then
        (case bsky_outcome e config of
           Inr st \<Rightarrow> (st_rows st, [])
         | Inl exc \<Rightarrow> ([], [bsky_warning exc]))
      else ([], []))"

definition mastodon_part :: "env \<Rightarrow> scan_config \<Rightarrow> row list \<times> string list" where
  "mastodon_part e config =
     (if mastodon_attempted config then
        (case mastodon_outcome e config of
           Inr st \<Rightarrow> (st_rows st, [])
         | Inl exc \<Rightarrow> ([], [mastodon_warning exc]))
      else ([], []))"

text \<open>A source failed when it was attempted and its adapter raised.\<close>

definition reddit_failed :: "env \<Rightarrow> scan_config \<Rightarrow> bool" where
  "reddit_failed e config \<longleftrightarrow> reddit_attempted config \<and> isl (reddit_outcome e config)"

definition x_failed :: "env \<Rightarrow> scan_config \<Rightarrow> bool" where
  "x_failed e config \<longleftrightarrow>
     x_attempted config \<and> (case x_outcome e config of Some (Inl exc) \<Rightarrow> True | _ \<Rightarrow> False)"

definition bsky_failed :: "env \<Rightarrow> scan_config \<Rightarrow> bool" where
  "bsky_failed e config \<longleftrightarrow> bsky_attempted config \<and> isl (bsky_outcome e config)"

definition mastodon_failed :: "env \<Rightarrow> scan_config \<Rightarrow> bool" where
  "mastodon_failed e config \<longleftrightarrow> mastodon_attempted config \<and> isl (mastodon_outcome e config)"

text \<open>
  A database is well formed when no stored row carries a scan id beyond the sequence,
  which is what \<open>AUTOINCREMENT\<close> maintains.
\<close>

definition db_wf :: "database \<Rightarrow> bool" where
  "db_wf db \<longleftrightarrow>
     list_all (\<lambda>h. sc_id h \<le> db_scan_seq db) (db_scans db)
     \<and> list_all (\<lambda>r. fst r \<le> db_scan_seq db) (db_scan_results db)
     \<and> list_all (\<lambda>r. fst r \<le> db_scan_seq db) (db_idea_summaries db)"

definition orch_synced :: "orch \<Rightarrow> bool" where
  "orch_synced acc \<longleftrightarrow> total_mentions (o_summary acc) = int (length (o_rows acc))
                      \<and> pay_bounded (o_summary acc)"

section \<open>A concrete organization, environment and database\<close>

text \<open>
  Reddit has no credentials, X is disabled, Bluesky answers one query with four posts
  (three of them spell out the backslashes that the patterns ask for), and Mastodon
  answers with status 429.
\<close>

definition ex_config :: scan_config where
  "ex_config =
     default_config\<lparr>cfg_subreddits := ''SaaS, startups'', cfg_since_days := 7,
                    cfg_bsky_enabled := 1, cfg_bsky_queries := ''app for'',
                    cfg_mastodon_enabled := 1, cfg_mastodon_queries := ''app for''\<rparr>"

definition ex_post :: "string \<Rightarrow> string \<Rightarrow> bsky_post" where
  "ex_post cid body =
     \<lparr>bp_record_text = Some body, bp_text = None, bp_created_at = Some (IsoAware 0),
      bp_indexed_at = None, bp_uri = ''at://did:plc:1/app.bsky.feed.post/'' @ cid,
      bp_handle = Some ''ann.bsky.social'', bp_cid = Some cid,
      bp_like_count = 2, bp_repost_count = 1, bp_reply_count = 0\<rparr>"

definition ex_posts :: "bsky_post list" where
  "ex_posts =
     [ex_post ''c1'' ([backslash] @ ''bI'd pay'' @ [backslash] @ ''b for expense tracking budget''),
      ex_post ''c2'' ''I'd pay for an app that tracks my expenses'',
      ex_post ''c3'' ([backslash] @ ''bI would pay'' @ [backslash] @ ''b for expense tracking budget''),
      ex_post ''c4'' ([backslash] @ ''bpain point'' @ [backslash] @ ''b invoices'')]"

definition ex_env :: env where
  "ex_env =
     \<lparr>env_now = 1700000000000000,
      env_reddit = Inl (RuntimeError ''Missing environment variables: REDDIT_CLIENT_ID''),
      env_reddit_limits = [],
      env_x_token = None,
      env_x_api = (\<lambda>req. Inl (OtherError ''connection refused'')),
      env_bsky_api = (\<lambda>url q n. Inr \<lparr>br_status = 200, br_text = [],
                                     br_rate = (None, None, None), br_posts = ex_posts\<rparr>),
      env_mastodon_api = (\<lambda>url q n tok. Inr \<lparr>mr_status = 429, mr_text = [],
                                     mr_rate = (None, None, None), mr_statuses = []\<rparr>),
      env_mastodon_token = None,
      env_unescape = (\<lambda>s. s)\<rparr>"

definition ex_db :: database where
  "ex_db =
     \<lparr>db_configs = [(1, ex_config)],
      db_schedules = [(1, \<lparr>interval_hours = 24, last_run_utc = None\<rparr>)],
      db_scan_seq = 0, db_scans = [], db_scan_results = [], db_idea_summaries = []\<rparr>"

text \<open>The returned tuple of a run, without the database.\<close>

definition run_result ::
  "(py_exception \<times> database + database \<times> nat \<times> nat \<times> nat \<times> string list) option
     \<Rightarrow> (nat \<times> nat \<times> nat \<times> string list) option" where
  "run_result r = (case r of Some (Inr (db', res)) \<Rightarrow> Some res | _ \<Rightarrow> None)"

definition run_db ::
  "(py_exception \<times> database + database \<times> nat \<times> nat \<times> nat \<times> string list) option
     \<Rightarrow> database option" where
  "run_db r = (case r of Some (Inr (db', res)) \<Rightarrow> Some db' | _ \<Rightarrow> None)"

text \<open>What a finished run left behind, in one value: the returned tuple, and of the scan
  it names the rows (id, source, idea key, pay flag) and the summaries (idea key,
  mentions, pay mentions).\<close>

definition run_view ::
  "(py_exception \<times> database + database \<times> nat \<times> nat \<times> nat \<times> string list) option
     \<Rightarrow> ((nat \<times> nat \<times> nat \<times> string list)
         \<times> (string \<times> string \<times> string \<times> string) list \<times> (string \<times> int \<times> int) list) option" where
  "run_view r =
     (case r of
        Some (Inr (db', scan_id, res)) \<Rightarrow>
          Some ((scan_id, res),
                map (\<lambda>r. (row_id r, row_source r, row_idea_key r, row_willing_to_pay r))
                  (scan_rows db' scan_id),
                map (\<lambda>e. (fst e, mentions (snd e), pay_mentions (snd e)))
                  (scan_summaries db' scan_id))
      | _ \<Rightarrow> None)"

definition ex_warnings :: "string list" where
  "ex_warnings =
     [''Reddit scan skipped: Missing environment variables: REDDIT_CLIENT_ID'',
      ''Mastodon rate limit reached. Try again later.'']"

text \<open>The same environment with Bluesky blocked: every attempted source fails.\<close>

definition ex_env_down :: env where
  "ex_env_down =
     ex_env\<lparr>env_bsky_api := (\<lambda>url q n. Inr \<lparr>br_status = 403, br_text = ''blocked'',
                                     br_rate = (None, None, None), br_posts = []\<rparr>)\<rparr>"

definition ex_warnings_down :: "string list" where
  "ex_warnings_down =
     [''Reddit scan skipped: Missing environment variables: REDDIT_CLIENT_ID'',
      ''Bluesky request blocked (403). Check VPN, firewall, or base URL.'',
      ''Mastodon rate limit reached. Try again later.'']"

section \<open>Vocabulary of the cutoff window\<close>

text \<open>A row is older than the cutoff when its creation time is a zoned instant before it.\<close>

definition older_than :: "int \<Rightarrow> row \<Rightarrow> bool" where
  "older_than cutoff r \<longleftrightarrow> (case row_created_utc r of IsoAware t \<Rightarrow> t < cutoff | _ \<Rightarrow> False)"

text \<open>The same row with its creation time blanked, to compare rows up to that field.\<close>

definition untimed :: "row \<Rightarrow> row" where
  "untimed r = r\<lparr>row_created_utc := NotIso []\<rparr>"

text \<open>
  A Reddit listing with a submission of yesterday (one comment of today, one of last
  month) and a submission of last month with a comment of today, and a Mastodon answer with
  a status of yesterday and one of last month.  Every text spells out the backslashes that
  the patterns ask for.
\<close>

definition ex_now :: int where
  "ex_now = 1700000000000000"

definition ex_pain :: string where
  "ex_pain = [backslash] @ ''bpain point'' @ [backslash] @ ''b invoices''"

definition ex_comment :: "string \<Rightarrow> int \<Rightarrow> comment" where
  "ex_comment cid age_days =
     \<lparr>c_id = cid, c_created_utc = ex_now - days_us age_days, c_score = 1, c_body = ex_pain,
      c_permalink = ''/r/SaaS/comments/'' @ cid\<rparr>"

definition ex_submission :: "string \<Rightarrow> int \<Rightarrow> comment list \<Rightarrow> submission" where
  "ex_submission sid age_days cs =
     \<lparr>s_id = sid, s_created_utc = ex_now - days_us age_days, s_score = 3, s_title = ex_pain,
      s_selftext = [], s_url = ''https://example.org/'' @ sid,
      s_permalink = ''/r/SaaS/comments/'' @ sid, s_comments = Inr cs\<rparr>"

definition ex_reddit :: reddit where
  "ex_reddit name post_limit =
     Inr [ex_submission ''s1'' 1 [ex_comment ''k1'' 0, ex_comment ''k2'' 30],
          ex_submission ''s2'' 30 [ex_comment ''k3'' 0]]"

definition ex_status :: "string \<Rightarrow> int \<Rightarrow> status" where
  "ex_status sid age_days =
     \<lparr>ms_id = Some sid, ms_created_at = Some (IsoAware (ex_now - days_us age_days)),
      ms_content = ex_pain, ms_favourites_count = 0, ms_reblogs_count = 0,
      ms_replies_count = 0, ms_url = None, ms_uri = None\<rparr>"

definition ex_mastodon :: mastodon_api where
  "ex_mastodon url q n tok =
     Inr \<lparr>mr_status = 200, mr_text = [], mr_rate = (None, None, None),
          mr_statuses = [ex_status ''m1'' 1, ex_status ''m2'' 30]\<rparr>"

text \<open>The ids of the rows an adapter returned.\<close>

definition row_ids :: "py_exception + scan_state \<Rightarrow> string list option" where
  "row_ids res = (case res of Inr st \<Rightarrow> Some (map row_id (st_rows st)) | Inl e \<Rightarrow> None)"

section \<open>Vocabulary of the scheduler tick\<close>

text \<open>
  The values of \<open>last_run_utc\<close> that the tick can read: null, the empty text, or a zoned
  ISO time, which is what the scheduler itself writes.
\<close>

definition stored_time_ok :: "time_text option \<Rightarrow> bool" where
  "stored_time_ok t =
     (case t of None \<Rightarrow> True | Some (IsoAware _) \<Rightarrow> True | Some (IsoNaive _) \<Rightarrow> False
      | Some (NotIso s) \<Rightarrow> s = [])"

text \<open>
  The due rule in the words of the specification: \<open>last_run\<close> is absent, or \<open>now\<close> minus
  \<open>last_run\<close> is at least \<open>interval_hours\<close>.
\<close>

definition spec_interval_elapsed :: "int \<Rightarrow> schedule \<Rightarrow> bool" where
  "spec_interval_elapsed now s =
     (case last_run_utc s of
        None \<Rightarrow> True
      | Some (IsoAware t) \<Rightarrow> interval_hours s * 3600000000 \<le> now - t
      | Some (IsoNaive _) \<Rightarrow> False
      | Some (NotIso x) \<Rightarrow> x = [])"

text \<open>The rule with a non-zero interval, and the rule with a positive interval.\<close>

definition spec_due_nonzero :: "int \<Rightarrow> schedule \<Rightarrow> bool" where
  "spec_due_nonzero now s \<longleftrightarrow> interval_hours s \<noteq> 0 \<and> spec_interval_elapsed now s"

definition spec_due_positive :: "int \<Rightarrow> schedule \<Rightarrow> bool" where
  "spec_due_positive now s \<longleftrightarrow> 0 < interval_hours s \<and> spec_interval_elapsed now s"

text \<open>The organization of an event, and whether the orchestrator was invoked for it.\<close>

fun event_org :: "tick_event \<Rightarrow> nat" where
  "event_org (Skipped org) = org"
| "event_org (Succeeded org) = org"
| "event_org (Failed org) = org"

fun invoked :: "tick_event \<Rightarrow> bool" where
  "invoked (Skipped org) = False"
| "invoked (Succeeded org) = True"
| "invoked (Failed org) = True"

text \<open>A schedule row after the tick: stamped with the clock reading when its run
  succeeded, untouched otherwise.\<close>

definition mark_run :: "(nat \<Rightarrow> int) \<Rightarrow> tick_event list \<Rightarrow> nat \<times> schedule \<Rightarrow> nat \<times> schedule" where
  "mark_run clock evs row =
     (if Succeeded (fst row) \<in> set evs
      then (fst row, (snd row)\<lparr>last_run_utc := Some (IsoAware (clock (fst row)))\<rparr>)
      else row)"

text \<open>What a tick left behind: the events and the stored \<open>last_run_utc\<close> of every schedule.\<close>

definition tick_view ::
  "(py_exception \<times> database \<times> tick_event list + database \<times> tick_event list) option
     \<Rightarrow> (tick_event list \<times> (nat \<times> time_text option) list) option" where
  "tick_view r =
     (case r of
        Some (Inr (db', evs)) \<Rightarrow>
          Some (evs, map (\<lambda>row. (fst row, last_run_utc (snd row))) (db_schedules db'))
      | _ \<Rightarrow> None)"

text \<open>
  A tick at \<open>ex_now\<close> over four schedules: organization 2 ran 30 hours ago and has no
  stored configuration, so its run fails on the schedule row that already exists;
  organization 1 ran 30 hours ago; organization 3 ran 10 hours ago; organization 4 is
  switched off.  A second database holds one schedule with a negative interval.
\<close>

definition hours_us :: "int \<Rightarrow> int" where
  "hours_us h = h * 3600000000"

definition ex_tick_db :: database where
  "ex_tick_db =
     ex_db\<lparr>db_schedules :=
       [(2, \<lparr>interval_hours = 24, last_run_utc = Some (IsoAware (ex_now - hours_us 30))\<rparr>),
        (1, \<lparr>interval_hours = 24, last_run_utc = Some (IsoAware (ex_now - hours_us 30))\<rparr>),
        (3, \<lparr>interval_hours = 24, last_run_utc = Some (IsoAware (ex_now - hours_us 10))\<rparr>),
        (4, \<lparr>interval_hours = 0, last_run_utc = None\<rparr>)]\<rparr>"

definition ex_neg_db :: database where
  "ex_neg_db = ex_db\<lparr>db_schedules := [(1, \<lparr>interval_hours = - 1, last_run_utc = None\<rparr>)]\<rparr>"

section \<open>Properties of the merge\<close>

lemma look_update:
  "look (AList.update key v t) k = (if k = key then v else look t k)"
  by (simp add: look_def update_conv')

lemma merge_summaries_step:
  "merge_summaries t ((key, d) # inc) =
     merge_summaries (AList.update key (merge_bucket (look t key) d) t) inc"
  by (simp add: look_def)

lemma merge_bucket_fields:
  "mentions (merge_bucket b d) = mentions b + mentions d"
  "pay_mentions (merge_bucket b d) = pay_mentions b + pay_mentions d"
  "sources (merge_bucket b d) = sources b \<union> sources d"
  "subreddits (merge_bucket b d) = subreddits b \<union> subreddits d"
  by (simp_all add: merge_bucket_def Let_def)

lemma merge_summaries_mentions:
  "mentions (look (merge_summaries t inc) k) =
     mentions (look t k) + sum_list (map mentions (entries_for k inc))"
proof (induction inc arbitrary: t)
  case Nil
  show ?case by (simp add: entries_for_def)
next
  case (Cons e inc)
  obtain key d where e: "e = (key, d)" by (cases e)
  show ?case
    unfolding e merge_summaries_step Cons.IH
    by (simp add: look_update merge_bucket_fields entries_for_def)
qed

lemma merge_summaries_pay_mentions:
  "pay_mentions (look (merge_summaries t inc) k) =
     pay_mentions (look t k) + sum_list (map pay_mentions (entries_for k inc))"
proof (induction inc arbitrary: t)
  case Nil
  show ?case by (simp add: entries_for_def)
next
  case (Cons e inc)
  obtain key d where e: "e = (key, d)" by (cases e)
  show ?case
    unfolding e merge_summaries_step Cons.IH
    by (simp add: look_update merge_bucket_fields entries_for_def)
qed

lemma merge_summaries_sources:
  "sources (look (merge_summaries t inc) k) =
     sources (look t k) \<union> \<Union> (set (map sources (entries_for k inc)))"
proof (induction inc arbitrary: t)
  case Nil
  show ?case by (simp add: entries_for_def)
next
  case (Cons e inc)
  obtain key d where e: "e = (key, d)" by (cases e)
  show ?case
    unfolding e merge_summaries_step Cons.IH
    by (auto simp add: look_update merge_bucket_fields entries_for_def)
qed

lemma merge_summaries_subreddits:
  "subreddits (look (merge_summaries t inc) k) =
     subreddits (look t k) \<union> \<Union> (set (map subreddits (entries_for k inc)))"
proof (induction inc arbitrary: t)
  case Nil
  show ?case by (simp add: entries_for_def)
next
  case (Cons e inc)
  obtain key d where e: "e = (key, d)" by (cases e)
  show ?case
    unfolding e merge_summaries_step Cons.IH
    by (auto simp add: look_update merge_bucket_fields entries_for_def)
qed

lemma merge_summaries_keys_list:
  "set (map fst (merge_summaries t inc)) = set (map fst t) \<union> set (map fst inc)"
proof (induction inc arbitrary: t)
  case Nil
  show ?case by simp
next
  case (Cons e inc)
  obtain key d where e: "e = (key, d)" by (cases e)
  show ?case
    unfolding e merge_summaries_step Cons.IH
    by (auto simp add: update_keys)
qed

lemma merge_summaries_keys:
  "fst ` set (merge_summaries t inc) = fst ` set t \<union> fst ` set inc"
  using merge_summaries_keys_list[of t inc] by simp

lemma merge_summaries_distinct:
  "distinct (map fst t) \<Longrightarrow> distinct (map fst (merge_summaries t inc))"
proof (induction inc arbitrary: t)
  case Nil
  then show ?case by simp
next
  case (Cons e inc)
  obtain key d where e: "e = (key, d)" by (cases e)
  show ?case
    unfolding e merge_summaries_step
    by (rule Cons.IH) (simp add: Cons.prems distinct_update)
qed

lemma look_Some: "map_of t k = Some b \<Longrightarrow> look t k = b"
  by (simp add: look_def)

lemma map_of_None_keys: "map_of t k = None \<longleftrightarrow> k \<notin> fst ` set t"
  by (simp add: map_of_eq_None_iff)

text \<open>
  C10.  Starting from an empty target, merging \<open>A\<close> then \<open>B\<close> and merging \<open>B\<close> then
  \<open>A\<close> give the same set of idea keys and, for every idea key, the same \<open>mentions\<close>,
  \<open>pay_mentions\<close>, \<open>sources\<close> and \<open>subreddits\<close>; of the six fields of a bucket only
  \<open>sample_title\<close> and \<open>sample_url\<close> are left out of the equation.
\<close>

theorem merge_summaries_order_insensitive:
  "fst ` set (merge_summaries (merge_summaries [] A) B)
     = fst ` set (merge_summaries (merge_summaries [] B) A)
   \<and> map_option aggregate (map_of (merge_summaries (merge_summaries [] A) B) k)
     = map_option aggregate (map_of (merge_summaries (merge_summaries [] B) A) k)"
proof
  show "fst ` set (merge_summaries (merge_summaries [] A) B)
     = fst ` set (merge_summaries (merge_summaries [] B) A)"
    by (simp add: merge_summaries_keys Un_commute)
next
  show "map_option aggregate (map_of (merge_summaries (merge_summaries [] A) B) k)
     = map_option aggregate (map_of (merge_summaries (merge_summaries [] B) A) k)"
  proof (cases "k \<in> fst ` set A \<union> fst ` set B")
    case False
    then have "map_of (merge_summaries (merge_summaries [] A) B) k = None"
      "map_of (merge_summaries (merge_summaries [] B) A) k = None"
      by (simp_all add: map_of_None_keys merge_summaries_keys)
    then show ?thesis by simp
  next
    case True
    then obtain b1 b2 where
      b1: "map_of (merge_summaries (merge_summaries [] A) B) k = Some b1" and
      b2: "map_of (merge_summaries (merge_summaries [] B) A) k = Some b2"
      using map_of_None_keys[of "merge_summaries (merge_summaries [] A) B" k]
            map_of_None_keys[of "merge_summaries (merge_summaries [] B) A" k]
      by (auto simp: merge_summaries_keys)
    have l1: "look (merge_summaries (merge_summaries [] A) B) k = b1"
      and l2: "look (merge_summaries (merge_summaries [] B) A) k = b2"
      using b1 b2 by (simp_all add: look_Some)
    have "aggregate b1 = aggregate b2"
      unfolding aggregate_def l1[symmetric] l2[symmetric]
      by (simp add: merge_summaries_mentions merge_summaries_pay_mentions
          merge_summaries_sources merge_summaries_subreddits Un_commute Un_left_commute Un_assoc)
    then show ?thesis by (simp add: b1 b2)
  qed
qed

text \<open>
  Two partial summaries that share the key \<open>budget\<close>: either merge order gives
  3 mentions, 1 pay mention and both sources, while the sample title is the one of the
  summary merged first.
\<close>

theorem merge_summaries_order_insensitive_witness:
  "map_option aggregate (map_of (merge_summaries (merge_summaries [] merge_part_a) merge_part_b) ''budget'')
     = Some (3, 1, {''Reddit'', ''X''}, {''SaaS'', ''query:app for''})
   \<and> map_option aggregate (map_of (merge_summaries (merge_summaries [] merge_part_b) merge_part_a) ''budget'')
     = Some (3, 1, {''Reddit'', ''X''}, {''SaaS'', ''query:app for''})
   \<and> map_option sample_title (map_of (merge_summaries (merge_summaries [] merge_part_a) merge_part_b) ''budget'')
     = Some ''post one''
   \<and> map_option sample_title (map_of (merge_summaries (merge_summaries [] merge_part_b) merge_part_a) ''budget'')
     = Some ''tweet one''"
proof -
  have a: "map_option aggregate (map_of (merge_summaries (merge_summaries [] merge_part_a) merge_part_b) ''budget'')
     = Some (3, 1, {''Reddit'', ''X''}, {''SaaS'', ''query:app for''})"
    by (simp add: merge_part_a_def merge_part_b_def new_summary_bucket_def merge_bucket_def
        aggregate_def Let_def insert_commute)
  have t1: "map_option sample_title (map_of (merge_summaries (merge_summaries [] merge_part_a) merge_part_b) ''budget'')
     = Some ''post one''"
    by (simp add: merge_part_a_def merge_part_b_def new_summary_bucket_def merge_bucket_def Let_def)
  have t2: "map_option sample_title (map_of (merge_summaries (merge_summaries [] merge_part_b) merge_part_a) ''budget'')
     = Some ''tweet one''"
    by (simp add: merge_part_a_def merge_part_b_def new_summary_bucket_def merge_bucket_def Let_def)
  show ?thesis
    using merge_summaries_order_insensitive[of merge_part_a merge_part_b "''budget''"] a t1 t2
    by simp
qed

section \<open>Properties of the trend engine\<close>

lemma enrich_summary_nth:
  "i < length rows \<Longrightarrow> enrich_summary rows sd pm ! i = enrich_row sd pm (rows ! i)"
  by (simp add: enrich_summary_def)






text \<open>
  C6.  With a previous-scan map available, every enriched row has momentum \<open>New\<close>
  exactly when the map has no entry for the row's idea key, and then both deltas are null;
  when the map has an entry, \<open>delta_mentions\<close> is the current mention count minus the
  previous one (and \<open>delta_pay\<close> likewise), momentum is \<open>Up\<close> exactly when that delta is at
  least 3, \<open>Down\<close> exactly when it is at most -3, and \<open>Flat\<close> exactly in between.
\<close>

theorem enrich_summary_momentum:
  fixes pm since_days
  assumes "i < length rows"
  defines "r \<equiv> rows ! i"
  defines "e \<equiv> enrich_summary rows since_days (Some pm) ! i"
  defines "m \<equiv> py_or0 (isr_mentions r)"
  shows "(momentum e = ''New'' \<longleftrightarrow> pm (isr_idea_key r) = None)
    \<and> (pm (isr_idea_key r) = None \<longrightarrow> delta_mentions e = None \<and> delta_pay e = None)
    \<and> (\<forall>pr. pm (isr_idea_key r) = Some pr \<longrightarrow>
          delta_mentions e = Some (m - pr_mentions pr)
        \<and> delta_pay e = Some (py_or0 (isr_pay_mentions r) - pr_pay_mentions pr)
        \<and> (momentum e = ''Up'' \<longleftrightarrow> 3 \<le> m - pr_mentions pr)
        \<and> (momentum e = ''Down'' \<longleftrightarrow> m - pr_mentions pr \<le> - 3)
        \<and> (momentum e = ''Flat'' \<longleftrightarrow> - 3 < m - pr_mentions pr \<and> m - pr_mentions pr < 3))"
  using assms(1) unfolding r_def e_def m_def
  by (auto simp: enrich_summary_nth enrich_row_def Let_def idea_summary_row.defs
           split: option.splits)

theorem enrich_summary_momentum_witness:
  "delta_mentions (enrich_summary [trend_row_a, trend_row_b] 30 (Some trend_prev) ! 0) = Some 4
   \<and> momentum (enrich_summary [trend_row_a, trend_row_b] 30 (Some trend_prev) ! 0) = ''Up''
   \<and> momentum (enrich_summary [trend_row_a, trend_row_b] 30 (Some trend_prev) ! 1) = ''New''
   \<and> delta_mentions (enrich_summary [trend_row_a, trend_row_b] 30 (Some trend_prev) ! 1) = None"
proof -
  have k0: "trend_prev (isr_idea_key ([trend_row_a, trend_row_b] ! 0))
              = Some \<lparr>pr_mentions = 5, pr_pay_mentions = 0\<rparr>"
    by (simp add: trend_prev_def trend_row_a_def)
  have k1: "trend_prev (isr_idea_key ([trend_row_a, trend_row_b] ! 1)) = None"
    by (simp add: trend_prev_def trend_row_b_def)
  have m0: "py_or0 (isr_mentions ([trend_row_a, trend_row_b] ! 0)) = 9"
    by (simp add: trend_row_a_def py_or0_def)
  have l0: "0 < length [trend_row_a, trend_row_b]" and l1: "1 < length [trend_row_a, trend_row_b]"
    by simp_all
  show ?thesis
    using enrich_summary_momentum[OF l0, of 30 trend_prev]
          enrich_summary_momentum[OF l1, of 30 trend_prev]
    unfolding k0 k1 m0 by simp
qed




section \<open>Properties of the pattern classifier\<close>





lemma pattern_group_names: "distinct (map fst PATTERN_GROUPS)"
  by (simp add: PATTERN_GROUPS_def pattern_groups_with_def)


lemma compile_patterns_with: "compile_patterns = compile_with escaped_backslash_b"
  by (simp add: compile_patterns_def compile_with_def PATTERN_GROUPS_def)




section \<open>Properties of the idea key generator\<close>

subsection \<open>The scanner finds the maximal runs of at least four letters\<close>

lemma runs_from_takeWhile:
  "runs_from cur s =
     (if cur @ takeWhile is_az s = [] then [] else [cur @ takeWhile is_az s])
     @ (case dropWhile is_az s of [] \<Rightarrow> [] | _ # t \<Rightarrow> runs_from [] t)"
proof (induction s arbitrary: cur)
  case Nil
  show ?case by simp
next
  case (Cons c s)
  show ?case
  proof (cases "is_az c")
    case True
    then show ?thesis using Cons.IH[of "cur @ [c]"] by simp
  next
    case False
    then show ?thesis by simp
  qed
qed

lemma findall_words_skip:
  "\<not> is_az d \<Longrightarrow> findall_words (d # t) = findall_words t"
  by simp

lemma findall_words_rest:
  assumes "rest = [] \<or> \<not> is_az (hd rest)"
  shows "findall_words rest = (case rest of [] \<Rightarrow> [] | _ # t \<Rightarrow> findall_words t)"
  using assms by (cases rest) simp_all

lemma takeWhile_run:
  assumes "\<forall>c \<in> set run. is_az c" "rest = [] \<or> \<not> is_az (hd rest)"
  shows "takeWhile is_az (run @ rest) = run"
  using assms by (cases rest) (simp_all add: takeWhile_append2)

lemma findall_words_short:
  assumes "\<forall>c \<in> set run. is_az c" "length run < 4" "rest = [] \<or> \<not> is_az (hd rest)"
  shows "findall_words (run @ rest) = findall_words rest"
  using assms
proof (induction run)
  case Nil
  show ?case by simp
next
  case (Cons c run)
  have tw: "takeWhile is_az ((c # run) @ rest) = c # run"
    using takeWhile_run[of "c # run" rest] Cons.prems by simp
  have "findall_words ((c # run) @ rest) = findall_words (run @ rest)"
    using Cons.prems tw by (simp del: takeWhile.simps)
  also have "\<dots> = findall_words rest"
    using Cons by simp
  finally show ?case .
qed

lemma findall_words_run:
  assumes "\<forall>c \<in> set run. is_az c" "rest = [] \<or> \<not> is_az (hd rest)"
  shows "findall_words (run @ rest) =
           (if 4 \<le> length run then [run] else []) @ findall_words rest"
proof (cases "4 \<le> length run")
  case False
  then show ?thesis using findall_words_short[OF assms(1) _ assms(2)] by simp
next
  case True
  then obtain c run' where run: "run = c # run'" by (cases run) auto
  have tw: "takeWhile is_az ((c # run') @ rest) = c # run'"
    using takeWhile_run[of "c # run'" rest] assms run by simp
  have "findall_words ((c # run') @ rest) = (c # run') # findall_words rest"
    using True tw unfolding run by (simp del: takeWhile.simps)
  then show ?thesis using True run by simp
qed

lemma findall_words_runs:
  "findall_words s = filter (\<lambda>w. 4 \<le> length w) (alpha_runs s)"
proof (induction s rule: length_induct)
  case (1 s)
  define run where "run = takeWhile is_az s"
  define rest where "rest = dropWhile is_az s"
  have s: "s = run @ rest" by (simp add: run_def rest_def)
  have az: "\<forall>c \<in> set run. is_az c"
    unfolding run_def by (auto dest: set_takeWhileD)
  have rest: "rest = [] \<or> \<not> is_az (hd rest)"
    unfolding rest_def using hd_dropWhile[of is_az s] by blast
  have lhs: "findall_words s = (if 4 \<le> length run then [run] else [])
               @ (case rest of [] \<Rightarrow> [] | _ # t \<Rightarrow> findall_words t)"
    unfolding s using findall_words_run[OF az rest] findall_words_rest[OF rest] by simp
  have rhs: "alpha_runs s = (if run = [] then [] else [run])
               @ (case rest of [] \<Rightarrow> [] | _ # t \<Rightarrow> alpha_runs t)"
    unfolding alpha_runs_def run_def rest_def using runs_from_takeWhile[of "[]" s] by simp
  have ih: "(case rest of [] \<Rightarrow> [] | _ # t \<Rightarrow> findall_words t)
            = filter (\<lambda>w. 4 \<le> length w) (case rest of [] \<Rightarrow> [] | _ # t \<Rightarrow> alpha_runs t)"
  proof (cases rest)
    case Nil
    then show ?thesis by simp
  next
    case (Cons d t)
    have "length t < length s" unfolding s Cons by simp
    then show ?thesis using 1 Cons by simp
  qed
  show ?case unfolding lhs rhs ih by auto
qed

subsection \<open>Counter keeps first-occurrence order and exact counts\<close>

lemma Counter_snoc: "Counter (ws @ [w]) = counter_add (Counter ws) w"
  by (simp add: Counter_def)

lemma counter_add_keys:
  "map fst (counter_add cnt w) = (if w \<in> set (map fst cnt) then map fst cnt else map fst cnt @ [w])"
proof (cases "map_of cnt w")
  case None
  then have "w \<notin> set (map fst cnt)" by (simp add: map_of_eq_None_iff)
  then show ?thesis using None by (simp add: counter_add_def)
next
  case (Some n)
  then have "w \<in> set (map fst cnt)" by (metis map_of_eq_None_iff option.distinct(1) set_map)
  then show ?thesis using Some by (simp add: counter_add_def update_keys)
qed

lemma counter_add_map_of:
  "map_of (counter_add cnt w) v =
     (if v = w then Some (case map_of cnt w of None \<Rightarrow> 1 | Some n \<Rightarrow> n + 1) else map_of cnt v)"
proof (cases "map_of cnt w")
  case None
  then show ?thesis
    by (auto simp: counter_add_def map_add_def split: option.splits)
next
  case (Some n)
  then show ?thesis by (simp add: counter_add_def update_conv')
qed

lemma Counter_keys_snoc:
  "map fst (Counter (ws @ [w])) =
     (if w \<in> set (map fst (Counter ws)) then map fst (Counter ws) else map fst (Counter ws) @ [w])"
  unfolding Counter_snoc counter_add_keys ..

lemma Counter_keys_set: "set (map fst (Counter ws)) = set ws"
proof (induction ws rule: rev_induct)
  case Nil
  show ?case by (simp add: Counter_def)
next
  case (snoc w ws)
  show ?case unfolding Counter_keys_snoc using snoc by auto
qed

lemma Counter_keys_distinct: "distinct (map fst (Counter ws))"
proof (induction ws rule: rev_induct)
  case Nil
  show ?case by (simp add: Counter_def)
next
  case (snoc w ws)
  show ?case unfolding Counter_keys_snoc using snoc by auto
qed

lemma Counter_map_of:
  "map_of (Counter ws) v = (if v \<in> set ws then Some (count_list ws v) else None)"
proof (induction ws rule: rev_induct)
  case Nil
  show ?case by (simp add: Counter_def)
next
  case (snoc w ws)
  show ?case unfolding Counter_snoc counter_add_map_of using snoc by auto
qed

lemma first_index_snoc_old: "v \<in> set ws \<Longrightarrow> first_index (ws @ [w]) v = first_index ws v"
  by (simp add: first_index_def takeWhile_append1)

lemma first_index_snoc_new:
  assumes "w \<notin> set ws"
  shows "first_index (ws @ [w]) w = length ws"
proof -
  have "\<And>x. x \<in> set ws \<Longrightarrow> x \<noteq> w" using assms by auto
  then show ?thesis by (simp add: first_index_def takeWhile_append2)
qed

lemma first_index_less: "v \<in> set ws \<Longrightarrow> first_index ws v < length ws"
  unfolding first_index_def by (induction ws) auto

lemma Counter_keys_sorted: "sorted (map (first_index ws) (map fst (Counter ws)))"
proof (induction ws rule: rev_induct)
  case Nil
  show ?case by (simp add: Counter_def)
next
  case (snoc w ws)
  define K where "K = map fst (Counter ws)"
  have K: "set K = set ws" unfolding K_def by (rule Counter_keys_set)
  have old: "map (first_index (ws @ [w])) K = map (first_index ws) K"
    by (rule map_cong) (simp_all add: K first_index_snoc_old)
  have IH: "sorted (map (first_index ws) K)" using snoc unfolding K_def .
  show ?case
  proof (cases "w \<in> set ws")
    case True
    then have keys: "map fst (Counter (ws @ [w])) = K"
      using K unfolding Counter_keys_snoc K_def by simp
    show ?thesis unfolding keys old by (rule IH)
  next
    case False
    then have keys: "map fst (Counter (ws @ [w])) = K @ [w]"
      using K unfolding Counter_keys_snoc K_def by simp
    have le: "\<forall>n \<in> set (map (first_index ws) K). n \<le> length ws"
      using K first_index_less by (auto simp: less_imp_le)
    have "sorted (map (first_index ws) K @ [length ws])"
      using IH le by (simp add: sorted_append)
    then have srt: "sorted (map (first_index ws) K @ [length ws])" .
    have eq: "map (first_index (ws @ [w])) (K @ [w]) = map (first_index ws) K @ [length ws]"
      unfolding map_append old by (simp add: first_index_snoc_new[OF False])
    show ?thesis
      unfolding keys eq by (rule srt)
  qed
qed

lemma Counter_entries:
  "Counter ws = map (\<lambda>w. (w, count_list ws w)) (map fst (Counter ws))"
proof -
  have "\<forall>e \<in> set (Counter ws). snd e = count_list ws (fst e)"
  proof
    fix e assume e: "e \<in> set (Counter ws)"
    then have "map_of (Counter ws) (fst e) = Some (snd e)"
      using Counter_keys_distinct[of ws] by (intro map_of_is_SomeI) simp_all
    then show "snd e = count_list ws (fst e)"
      unfolding Counter_map_of by (auto split: if_splits)
  qed
  then show ?thesis
    by (intro nth_equalityI) (auto simp: prod_eq_iff)
qed

subsection \<open>A stable sort of a list already in tie-break order\<close>

lemma insort_key_map:
  "insort_key f (g x) (map g xs) = map g (insort_key (\<lambda>a. f (g a)) x xs)"
  by (induction xs) simp_all

lemma sort_key_map:
  "sort_key f (map g xs) = map g (sort_key (\<lambda>a. f (g a)) xs)"
proof (induction xs)
  case Nil
  show ?case by simp
next
  case (Cons x xs)
  have "sort_key f (map g (x # xs)) = insort_key f (g x) (sort_key f (map g xs))"
    by simp
  also have "\<dots> = insort_key f (g x) (map g (sort_key (\<lambda>a. f (g a)) xs))"
    unfolding Cons.IH ..
  also have "\<dots> = map g (insort_key (\<lambda>a. f (g a)) x (sort_key (\<lambda>a. f (g a)) xs))"
    by (rule insort_key_map)
  also have "\<dots> = map g (sort_key (\<lambda>a. f (g a)) (x # xs))"
    by simp
  finally show ?case .
qed

lemma insort_key_lex:
  fixes f :: "'a \<Rightarrow> 'b::linorder" and g :: "'a \<Rightarrow> 'c::linorder"
  assumes "\<forall>y \<in> set ys. g x \<le> g y"
  shows "insort_key f x ys = insort_key (\<lambda>x. (f x, g x)) x ys"
  using assms by (induction ys) (auto simp: less_eq_prod_def less_le)

lemma sort_key_lex:
  fixes f :: "'a \<Rightarrow> 'b::linorder" and g :: "'a \<Rightarrow> 'c::linorder"
  assumes "sorted (map g xs)"
  shows "sort_key f xs = sort_key (\<lambda>x. (f x, g x)) xs"
  using assms
proof (induction xs)
  case Nil
  show ?case by simp
next
  case (Cons x xs)
  have IH: "sort_key f xs = sort_key (\<lambda>x. (f x, g x)) xs"
    using Cons by simp
  have le: "\<forall>y \<in> set (sort_key (\<lambda>x. (f x, g x)) xs). g x \<le> g y"
    using Cons.prems by auto
  have "sort_key f (x # xs) = insort_key f x (sort_key (\<lambda>x. (f x, g x)) xs)"
    unfolding IH[symmetric] by simp
  also have "\<dots> = insort_key (\<lambda>x. (f x, g x)) x (sort_key (\<lambda>x. (f x, g x)) xs)"
    by (rule insort_key_lex[OF le])
  also have "\<dots> = sort_key (\<lambda>x. (f x, g x)) (x # xs)"
    by simp
  finally show ?case .
qed

lemma sort_key_unique:
  fixes k :: "'a \<Rightarrow> 'b::linorder"
  assumes "inj_on k (set xs)" "distinct xs" "distinct ys" "set xs = set ys"
  shows "sort_key k xs = sort_key k ys"
proof -
  have inj: "inj_on k (set (sort_key k xs) \<union> set (sort_key k ys))"
    using assms by simp
  have "map k (sort_key k xs) = map k (sort_key k ys)"
  proof (rule sorted_distinct_set_unique)
    show "sorted (map k (sort_key k xs))" "sorted (map k (sort_key k ys))"
      by (rule sorted_sort_key)+
    show "distinct (map k (sort_key k xs))"
      using assms by (simp add: distinct_map)
    show "distinct (map k (sort_key k ys))"
      using assms by (simp add: distinct_map)
    show "set (map k (sort_key k xs)) = set (map k (sort_key k ys))"
      using assms by simp
  qed
  then show ?thesis using inj_on_map_eq_map[OF inj] by blast
qed

lemma first_index_inj: "inj_on (first_index ws) (set ws)"
proof (rule inj_onI)
  fix v w assume v: "v \<in> set ws" and w: "w \<in> set ws"
    and eq: "first_index ws v = first_index ws w"
  have nth: "ws ! first_index ws u = u" if "u \<in> set ws" for u
    using that unfolding first_index_def by (induction ws) auto
  have "v = ws ! first_index ws v" using nth[OF v] by simp
  also have "\<dots> = ws ! first_index ws w" unfolding eq ..
  also have "\<dots> = w" using nth[OF w] .
  finally show "v = w" .
qed

text \<open>
  C3.  For every text, \<open>idea_key\<close> returns what the specified algorithm returns: the
  text is lower-cased, its maximal runs of letters with at least four letters are the
  tokens, stop words are dropped, the distinct tokens are ranked by descending frequency
  with ties in first-occurrence order, the first six are joined by single spaces, and
  \<open>uncategorized\<close> is returned when no token survives.  Both sides are functions of the
  text alone, so equal texts give equal keys.
\<close>

theorem idea_key_refines: "idea_key text = idea_key_spec text"
proof -
  define words where "words = filter (\<lambda>w. w \<notin> set STOPWORDS) (findall_words (lower text))"
  define K where "K = map fst (Counter words)"
  define cnt where "cnt = (\<lambda>w. - int (count_list words w))"
  have words': "filter (\<lambda>w. w \<notin> set STOPWORDS) (filter (\<lambda>w. 4 \<le> length w) (alpha_runs (lower text))) = words"
    unfolding words_def findall_words_runs ..
  have "map fst (sort_key (\<lambda>e. - int (snd e)) (Counter words)) = sort_key cnt K"
    by (subst Counter_entries) (simp add: sort_key_map K_def cnt_def)
  also have "\<dots> = sort_key (\<lambda>w. (cnt w, first_index words w)) K"
    unfolding K_def by (rule sort_key_lex) (rule Counter_keys_sorted)
  also have "\<dots> = sort_key (\<lambda>w. (cnt w, first_index words w)) (remdups words)"
  proof (rule sort_key_unique)
    show "inj_on (\<lambda>w. (cnt w, first_index words w)) (set K)"
      using first_index_inj[of words] unfolding K_def Counter_keys_set
      by (auto simp: inj_on_def)
    show "distinct K" unfolding K_def by (rule Counter_keys_distinct)
    show "distinct (remdups words)" by simp
    show "set K = set (remdups words)" unfolding K_def Counter_keys_set by simp
  qed
  finally have ranked: "map fst (sort_key (\<lambda>e. - int (snd e)) (Counter words))
       = sort_key (\<lambda>w. (cnt w, first_index words w)) (remdups words)" .
  have top: "map fst (most_common 6 (Counter words))
       = take 6 (sort_key (\<lambda>w. (- int (count_list words w), first_index words w)) (remdups words))"
    unfolding most_common_def take_map[symmetric] ranked cnt_def ..
  have lhs: "idea_key text = (if words = [] then ''uncategorized''
       else join '' '' (map fst (most_common 6 (Counter words))))"
    unfolding idea_key_def words_def Let_def ..
  have rhs: "idea_key_spec text = (if words = [] then ''uncategorized''
       else join '' '' (take 6 (sort_key (\<lambda>w. (- int (count_list words w), first_index words w))
              (remdups words))))"
    unfolding idea_key_spec_def Let_def words' ..
  show ?thesis unfolding lhs rhs top ..
qed

theorem idea_key_refines_witness:
  "idea_key ''Budget tracking budget expense EXPENSE tracking zebra zebra zebra alpha beta gamma delta''
     = ''zebra budget tracking expense alpha beta''
   \<and> idea_key ''an app to do it'' = ''uncategorized''"
proof -
  have "idea_key_spec ''Budget tracking budget expense EXPENSE tracking zebra zebra zebra alpha beta gamma delta''
     = ''zebra budget tracking expense alpha beta''"
    by code_simp
  moreover have "idea_key_spec ''an app to do it'' = ''uncategorized''"
    by code_simp
  ultimately show ?thesis
    unfolding idea_key_refines by simp
qed

section \<open>Invariants of the adapters\<close>

subsection \<open>Summary arithmetic\<close>

lemma total_mentions_update:
  "total_mentions (AList.update k v s) = total_mentions s - mentions (look s k) + mentions v"
  by (induction s) (auto simp: total_mentions_def look_def new_summary_bucket_def)

lemma pay_bounded_look:
  "pay_bounded s \<Longrightarrow> pay_mentions (look s k) \<le> mentions (look s k)"
  by (induction s) (auto simp: pay_bounded_def look_def new_summary_bucket_def)

lemma pay_bounded_update:
  "pay_bounded s \<Longrightarrow> pay_mentions v \<le> mentions v \<Longrightarrow> pay_bounded (AList.update k v s)"
  by (induction s) (auto simp: pay_bounded_def)

lemma pay_bounded_iff:
  "pay_bounded s \<longleftrightarrow> (\<forall>(k, b) \<in> set s. pay_mentions b \<le> mentions b)"
  by (auto simp: pay_bounded_def list_all_iff)

lemma add_to_summary_total:
  "total_mentions (add_to_summary s key pay src label title url) = total_mentions s + 1"
  by (simp add: add_to_summary_def Let_def total_mentions_update)

lemma add_to_summary_bounded:
  "pay_bounded s \<Longrightarrow> pay_bounded (add_to_summary s key pay src label title url)"
  unfolding add_to_summary_def Let_def
  by (rule pay_bounded_update) (use pay_bounded_look[of s key] in auto)

lemma merge_summaries_total:
  "total_mentions (merge_summaries t inc) = total_mentions t + total_mentions inc"
proof (induction inc arbitrary: t)
  case Nil
  show ?case by (simp add: total_mentions_def)
next
  case (Cons e inc)
  obtain key d where e: "e = (key, d)" by (cases e)
  have "total_mentions (merge_summaries t ((key, d) # inc))
        = total_mentions (AList.update key (merge_bucket (look t key) d) t) + total_mentions inc"
    unfolding merge_summaries_step Cons.IH ..
  also have "\<dots> = total_mentions t + mentions d + total_mentions inc"
    by (simp add: total_mentions_update merge_bucket_fields)
  also have "\<dots> = total_mentions t + total_mentions ((key, d) # inc)"
    by (simp add: total_mentions_def)
  finally show ?case unfolding e .
qed

lemma merge_summaries_bounded:
  "pay_bounded t \<Longrightarrow> pay_bounded inc \<Longrightarrow> pay_bounded (merge_summaries t inc)"
proof (induction inc arbitrary: t)
  case Nil
  then show ?case by simp
next
  case (Cons e inc)
  obtain key d where e: "e = (key, d)" by (cases e)
  have d: "pay_mentions d \<le> mentions d" and inc: "pay_bounded inc"
    using Cons.prems(2) unfolding e by (simp_all add: pay_bounded_def)
  have "pay_bounded (AList.update key (merge_bucket (look t key) d) t)"
    using pay_bounded_look[OF Cons.prems(1), of key] d
    by (intro pay_bounded_update Cons.prems(1)) (simp add: merge_bucket_fields)
  then show ?case
    unfolding e merge_summaries_step by (rule Cons.IH) (rule inc)
qed

lemma synced_empty: "synced empty_state"
  by (simp add: synced_def empty_state_def total_mentions_def pay_bounded_def)

lemma synced_keep_item: "synced st \<Longrightarrow> synced (keep_item st r pay)"
  by (simp add: synced_def keep_item_def add_to_summary_total add_to_summary_bounded)

lemma synced_count_fetched: "synced st \<Longrightarrow> synced (count_fetched n st)"
  by (simp add: synced_def count_fetched_def)

lemma synced_meta: "synced st \<Longrightarrow> synced (st\<lparr>st_meta := m\<rparr>)"
  by (simp add: synced_def)

lemma for_each_invariant:
  assumes "\<And>x s s'. P s \<Longrightarrow> body x s = Inr s' \<Longrightarrow> P s'"
  shows "P st \<Longrightarrow> for_each body xs st = Inr st' \<Longrightarrow> P st'"
proof (induction xs arbitrary: st)
  case Nil
  then show ?case by simp
next
  case (Cons x xs)
  then show ?case using assms by (auto split: sum.splits)
qed

lemma fold_invariant:
  assumes "\<And>x s. P s \<Longrightarrow> P (f x s)"
  shows "P st \<Longrightarrow> P (fold f xs st)"
  by (induction xs arbitrary: st) (auto intro: assms)

subsection \<open>One induction rule per adapter\<close>

lemma reddit_comment_rule:
  assumes "P st"
    and "\<And>s n. P s \<Longrightarrow> P (count_fetched n s)"
    and "\<And>s r pay. P s \<Longrightarrow> reddit_row cutoff r \<Longrightarrow> P (keep_item s r pay)"
  shows "P (reddit_comment name sub cutoff rar c st)"
  unfolding reddit_comment_def Let_def
  using assms(1) by (auto intro!: assms(2,3) simp: reddit_row_def)

lemma reddit_submission_rule:
  assumes res: "reddit_submission name cutoff ic cl rar sub st = Inr st'"
    and P: "P st"
    and cf: "\<And>s n. P s \<Longrightarrow> P (count_fetched n s)"
    and keep: "\<And>s r pay. P s \<Longrightarrow> reddit_row cutoff r \<Longrightarrow> P (keep_item s r pay)"
  shows "P st'"
proof (cases "s_created_utc sub < cutoff")
  case True
  then show ?thesis using res P by (simp add: reddit_submission_def)
next
  case False
  define st2 where "st2 =
     (let st1 = count_fetched 1 st;
          text_s = join '' '' (filter (\<lambda>part. part \<noteq> []) [s_title sub, s_selftext sub]);
          groups0 = match_groups text_s compile_patterns;
          groups = (if rar \<and> ''app_request'' \<notin> set groups0 then [] else groups0);
          pay = (''pay'' \<in> set groups)
      in (if groups = [] then st1
          else keep_item st1
                     \<lparr>row_source = ''Reddit'', row_subreddit = name, row_type = ''submission'',
                      row_id = s_id sub, row_created_utc = IsoAware (s_created_utc sub),
                      row_score = s_score sub, row_title = s_title sub, row_url = s_url sub,
                      row_permalink = ''https://www.reddit.com'' @ s_permalink sub,
                      row_match_groups = join '';'' groups,
                      row_willing_to_pay = yes_no pay, row_idea_key = idea_key text_s,
                      row_snippet = snippet_of (s_selftext sub)\<rparr> pay))"
  have st2: "P st2"
    unfolding st2_def Let_def using P False
    by (auto intro!: keep cf simp: reddit_row_def)
  have res': "(if ic then (case iter_comments sub cl of Inl e \<Rightarrow> Inl e
                 | Inr cs \<Rightarrow> Inr (fold (reddit_comment name sub cutoff rar) cs st2))
             else Inr st2) = Inr st'"
    using res False unfolding reddit_submission_def st2_def Let_def by simp
  show ?thesis
  proof (cases ic)
    case False
    then show ?thesis using res' st2 by simp
  next
    case True
    then obtain cs where "st' = fold (reddit_comment name sub cutoff rar) cs st2"
      using res' by (auto split: sum.splits)
    moreover have "P (fold (reddit_comment name sub cutoff rar) cs st2)"
      by (rule fold_invariant[where P = P, OF _ st2]) (rule reddit_comment_rule[OF _ cf keep])
    ultimately show ?thesis by simp
  qed
qed

lemma scan_subreddits_rule:
  assumes res: "scan_subreddits now client names pl sd ic cl rar = Inr st"
    and P: "P empty_state"
    and cf: "\<And>s n. P s \<Longrightarrow> P (count_fetched n s)"
    and keep: "\<And>s r pay. P s \<Longrightarrow> reddit_row (now - days_us sd) r \<Longrightarrow> P (keep_item s r pay)"
  shows "P st"
proof -
  have sub: "P s'" if Ps: "P s"
      and step: "reddit_subreddit client pl (now - days_us sd) ic cl rar name s = Inr s'" for name s s'
  proof -
    obtain subs where
      loop: "for_each (reddit_submission name (now - days_us sd) ic cl rar) subs s = Inr s'"
      using step unfolding reddit_subreddit_def by (auto split: sum.splits)
    show ?thesis
      by (rule for_each_invariant[where P = P, OF _ Ps loop])
         (rule reddit_submission_rule[OF _ _ cf keep])
  qed
  have loop: "for_each (reddit_subreddit client pl (now - days_us sd) ic cl rar) names
                empty_state = Inr st"
    using res unfolding scan_subreddits_def Let_def .
  show ?thesis
    by (rule for_each_invariant[where P = P, OF _ P loop]) (rule sub)
qed

lemma x_tweet_rule:
  assumes "P st"
    and "\<And>s r pay. P s \<Longrightarrow> x_row r \<Longrightarrow> P (keep_item s r pay)"
  shows "P (x_tweet now q tw st)"
  unfolding x_tweet_def Let_def
  using assms(1) by (auto intro!: assms(2) simp: x_row_def)

lemma x_queries_rule:
  assumes res: "x_queries now api token lmt sd lang rt queries st = Some (Inr st')"
    and P: "P st"
    and cf: "\<And>s n. P s \<Longrightarrow> P (count_fetched n s)"
    and meta: "\<And>s m. P s \<Longrightarrow> P (s\<lparr>st_meta := m\<rparr>)"
    and keep: "\<And>s r pay. P s \<Longrightarrow> x_row r \<Longrightarrow> P (keep_item s r pay)"
  shows "P st'"
  using res P
proof (induction queries arbitrary: st)
  case Nil
  then show ?case by simp
next
  case (Cons q queries)
  from Cons.prems(1) obtain tweets rate where
    next_st: "x_queries now api token lmt sd lang rt queries
        (fold (x_tweet now q) tweets
           ((count_fetched (int (length tweets)) st)\<lparr>st_meta := st_meta st @ [(q, rate)]\<rparr>))
      = Some (Inr st')"
    by (auto split: option.splits sum.splits)
  have "P (fold (x_tweet now q) tweets
           ((count_fetched (int (length tweets)) st)\<lparr>st_meta := st_meta st @ [(q, rate)]\<rparr>))"
    by (rule fold_invariant[where P = P]) (auto intro: x_tweet_rule keep meta cf Cons.prems(2))
  then show ?case by (rule Cons.IH[OF next_st])
qed

lemma scan_x_queries_rule:
  assumes res: "scan_x_queries now env_token api queries lmt sd lang rt = Some (Inr st)"
    and P: "P empty_state"
    and cf: "\<And>s n. P s \<Longrightarrow> P (count_fetched n s)"
    and meta: "\<And>s m. P s \<Longrightarrow> P (s\<lparr>st_meta := m\<rparr>)"
    and keep: "\<And>s r pay. P s \<Longrightarrow> x_row r \<Longrightarrow> P (keep_item s r pay)"
  shows "P st"
proof -
  obtain token where "x_queries now api token lmt sd lang rt queries empty_state = Some (Inr st)"
    using res unfolding scan_x_queries_def by (auto split: sum.splits)
  then show ?thesis by (rule x_queries_rule[OF _ P cf meta keep])
qed

lemma bsky_post_step_rule:
  assumes "P st"
    and "\<And>s r pay. P s \<Longrightarrow> bsky_row r \<Longrightarrow> P (keep_item s r pay)"
  shows "P (bsky_post_step q post st)"
  unfolding bsky_post_step_def Let_def
  using assms(1) by (auto intro!: assms(2) simp: bsky_row_def)

lemma scan_bsky_queries_rule:
  assumes res: "scan_bsky_queries api queries lmt base_url = Inr st"
    and P: "P empty_state"
    and cf: "\<And>s n. P s \<Longrightarrow> P (count_fetched n s)"
    and meta: "\<And>s m. P s \<Longrightarrow> P (s\<lparr>st_meta := m\<rparr>)"
    and keep: "\<And>s r pay. P s \<Longrightarrow> bsky_row r \<Longrightarrow> P (keep_item s r pay)"
  shows "P st"
proof -
  have q: "P s'" if Ps: "P s" and step: "bsky_query api base_url lmt q s = Inr s'" for q s s'
  proof -
    obtain posts rate where
      "s' = fold (bsky_post_step q) posts
              ((count_fetched (int (length posts)) s)\<lparr>st_meta := st_meta s @ [(q, rate)]\<rparr>)"
      using step unfolding bsky_query_def by (auto split: sum.splits)
    moreover have "P (fold (bsky_post_step q) posts
              ((count_fetched (int (length posts)) s)\<lparr>st_meta := st_meta s @ [(q, rate)]\<rparr>))"
      by (rule fold_invariant[where P = P]) (auto intro: bsky_post_step_rule keep meta cf Ps)
    ultimately show ?thesis by simp
  qed
  have loop: "for_each (bsky_query api base_url lmt) queries empty_state = Inr st"
    using res unfolding scan_bsky_queries_def .
  show ?thesis
    by (rule for_each_invariant[where P = P, OF _ P loop]) (rule q)
qed

lemma mastodon_status_rule:
  assumes res: "mastodon_status unescape cutoff q s st = Inr st'"
    and P: "P st"
    and keep: "\<And>s r pay. P s \<Longrightarrow> mastodon_row cutoff r \<Longrightarrow> P (keep_item s r pay)"
  shows "P st'"
proof -
  have old: "mastodon_too_old cutoff (ms_created_at s) = Inr False
      \<Longrightarrow> mastodon_row cutoff
           \<lparr>row_source = ''Mastodon'', row_subreddit = a, row_type = b, row_id = c,
            row_created_utc = time_or_empty (ms_created_at s), row_score = d, row_title = e,
            row_url = f, row_permalink = g, row_match_groups = h, row_willing_to_pay = i,
            row_idea_key = j, row_snippet = k\<rparr>" for a b c d e f g h i j k
    by (auto simp: mastodon_too_old_def mastodon_row_def time_or_empty_def
             split: option.splits time_text.splits)
  show ?thesis
    using res P unfolding mastodon_status_def Let_def
    by (auto split: sum.splits bool.splits if_splits intro!: keep old)
qed

lemma scan_mastodon_queries_rule:
  assumes res: "scan_mastodon_queries now api unescape queries lmt inst sd token = Inr st"
    and P: "P empty_state"
    and cf: "\<And>s n. P s \<Longrightarrow> P (count_fetched n s)"
    and meta: "\<And>s m. P s \<Longrightarrow> P (s\<lparr>st_meta := m\<rparr>)"
    and keep: "\<And>s r pay. P s \<Longrightarrow>
        mastodon_row (if sd \<noteq> 0 \<and> 0 < sd then Some (now - days_us sd) else None) r
        \<Longrightarrow> P (keep_item s r pay)"
  shows "P st"
proof -
  define cutoff where "cutoff = (if sd \<noteq> 0 \<and> 0 < sd then Some (now - days_us sd) else None)"
  have keep': "\<And>s r pay. P s \<Longrightarrow> mastodon_row cutoff r \<Longrightarrow> P (keep_item s r pay)"
    unfolding cutoff_def by (rule keep)
  have q: "P s'" if Ps: "P s"
    and step: "mastodon_query api unescape cutoff inst lmt token q s = Inr s'" for q s s'
  proof -
    obtain statuses rate where
      loop: "for_each (mastodon_status unescape cutoff q) statuses
              ((count_fetched (int (length statuses)) s)\<lparr>st_meta := st_meta s @ [(q, rate)]\<rparr>)
             = Inr s'"
      using step unfolding mastodon_query_def by (auto split: sum.splits)
    have start: "P ((count_fetched (int (length statuses)) s)\<lparr>st_meta := st_meta s @ [(q, rate)]\<rparr>)"
      by (intro meta cf Ps)
    have one: "P s2" if P1: "P s1" and r1: "mastodon_status unescape cutoff q x s1 = Inr s2"
      for x s1 s2
      using mastodon_status_rule[where P = P, OF r1 P1] keep' by blast
    show ?thesis
      by (rule for_each_invariant[where P = P, OF _ start loop]) (rule one)
  qed
  have loop: "for_each (mastodon_query api unescape cutoff inst lmt token) queries empty_state
              = Inr st"
    using res unfolding scan_mastodon_queries_def Let_def cutoff_def .
  show ?thesis
    by (rule for_each_invariant[where P = P, OF _ P loop]) (rule q)
qed

section \<open>The orchestrator\<close>

subsection \<open>Consequences of the adapter rules\<close>

lemma synced_meta_update: "synced s \<Longrightarrow> synced (s\<lparr>st_meta := m\<rparr>)"
  by (simp add: synced_def)

lemma scan_subreddits_synced:
  "scan_subreddits now client names pl sd ic cl rar = Inr st \<Longrightarrow> synced st"
  by (erule scan_subreddits_rule)
     (auto intro: synced_empty synced_count_fetched synced_keep_item)

lemma scan_x_queries_synced:
  "scan_x_queries now tok api queries lmt sd lang rt = Some (Inr st) \<Longrightarrow> synced st"
  by (erule scan_x_queries_rule)
     (auto intro: synced_empty synced_count_fetched synced_keep_item synced_meta_update)

lemma scan_bsky_queries_synced:
  "scan_bsky_queries api queries lmt base = Inr st \<Longrightarrow> synced st"
  by (erule scan_bsky_queries_rule)
     (auto intro: synced_empty synced_count_fetched synced_keep_item synced_meta_update)

lemma scan_mastodon_queries_synced:
  "scan_mastodon_queries now api unescape queries lmt inst sd tok = Inr st \<Longrightarrow> synced st"
  by (erule scan_mastodon_queries_rule)
     (auto intro: synced_empty synced_count_fetched synced_keep_item synced_meta_update)

lemma rows_keep_item: "st_rows (keep_item s r pay) = st_rows s @ [r]"
  by (simp add: keep_item_def)

lemma rows_count_fetched: "st_rows (count_fetched n s) = st_rows s"
  by (simp add: count_fetched_def)

lemma scan_subreddits_rows:
  "scan_subreddits now client names pl sd ic cl rar = Inr st
     \<Longrightarrow> list_all (reddit_row (now - days_us sd)) (st_rows st)"
  by (erule scan_subreddits_rule)
     (simp_all add: empty_state_def rows_keep_item rows_count_fetched)

lemma scan_x_queries_rows:
  "scan_x_queries now tok api queries lmt sd lang rt = Some (Inr st)
     \<Longrightarrow> list_all x_row (st_rows st)"
  by (erule scan_x_queries_rule)
     (simp_all add: empty_state_def rows_keep_item rows_count_fetched)

lemma scan_bsky_queries_rows:
  "scan_bsky_queries api queries lmt base = Inr st \<Longrightarrow> list_all bsky_row (st_rows st)"
  by (erule scan_bsky_queries_rule)
     (simp_all add: empty_state_def rows_keep_item rows_count_fetched)

lemma scan_mastodon_queries_rows:
  "scan_mastodon_queries now api unescape queries lmt inst sd tok = Inr st
     \<Longrightarrow> list_all (mastodon_row (if sd \<noteq> 0 \<and> 0 < sd then Some (now - days_us sd) else None))
           (st_rows st)"
  by (erule scan_mastodon_queries_rule)
     (simp_all add: empty_state_def rows_keep_item rows_count_fetched)

subsection \<open>The orchestrator keeps rows and summary in step\<close>

lemma orch_synced_init: "orch_synced orch_init"
  by (simp add: orch_synced_def orch_init_def total_mentions_def pay_bounded_def)

lemma orch_synced_take_over:
  "orch_synced acc \<Longrightarrow> synced st \<Longrightarrow> orch_synced (take_over st acc)"
  by (simp add: orch_synced_def synced_def take_over_def merge_summaries_total
      merge_summaries_bounded)

lemma orch_synced_warn: "orch_synced acc \<Longrightarrow> orch_synced (warn w acc)"
  by (simp add: orch_synced_def warn_def)

lemma orch_synced_fields:
  "orch_synced (acc\<lparr>o_reddit_stats := a, o_reddit_meta := b\<rparr>) = orch_synced acc"
  "orch_synced (acc\<lparr>o_x_stats := a, o_x_meta := c\<rparr>) = orch_synced acc"
  "orch_synced (acc\<lparr>o_bsky_stats := a, o_bsky_meta := c\<rparr>) = orch_synced acc"
  "orch_synced (acc\<lparr>o_mastodon_stats := a, o_mastodon_meta := c\<rparr>) = orch_synced acc"
  by (simp_all add: orch_synced_def)

lemma reddit_outcome_synced: "reddit_outcome e config = Inr st \<Longrightarrow> synced st"
  unfolding reddit_outcome_def by (auto split: sum.splits dest: scan_subreddits_synced)

lemma x_outcome_synced: "x_outcome e config = Some (Inr st) \<Longrightarrow> synced st"
  unfolding x_outcome_def by (rule scan_x_queries_synced)

lemma bsky_outcome_synced: "bsky_outcome e config = Inr st \<Longrightarrow> synced st"
  unfolding bsky_outcome_def by (rule scan_bsky_queries_synced)

lemma mastodon_outcome_synced: "mastodon_outcome e config = Inr st \<Longrightarrow> synced st"
  unfolding mastodon_outcome_def by (rule scan_mastodon_queries_synced)

lemma reddit_step_synced: "orch_synced acc \<Longrightarrow> orch_synced (reddit_step e config acc)"
  unfolding reddit_step_def
  by (auto split: sum.splits simp: orch_synced_fields
           intro: orch_synced_take_over orch_synced_warn reddit_outcome_synced)

lemma x_step_synced:
  "orch_synced acc \<Longrightarrow> x_step e config acc = Some acc' \<Longrightarrow> orch_synced acc'"
  unfolding x_step_def
  by (auto split: sum.splits option.splits if_splits simp: orch_synced_fields
           intro!: orch_synced_take_over orch_synced_warn dest: x_outcome_synced)

lemma bsky_step_synced: "orch_synced acc \<Longrightarrow> orch_synced (bsky_step e config acc)"
  unfolding bsky_step_def
  by (auto split: sum.splits simp: orch_synced_fields
           intro: orch_synced_take_over orch_synced_warn bsky_outcome_synced)

lemma mastodon_step_synced: "orch_synced acc \<Longrightarrow> orch_synced (mastodon_step e config acc)"
  unfolding mastodon_step_def
  by (auto split: sum.splits simp: orch_synced_fields
           intro: orch_synced_take_over orch_synced_warn mastodon_outcome_synced)

lemma collect_synced: "collect e config = Some acc \<Longrightarrow> orch_synced acc"
  unfolding collect_def
  by (auto split: option.splits
           intro!: mastodon_step_synced bsky_step_synced
           intro: x_step_synced[OF reddit_step_synced[OF orch_synced_init]])

subsection \<open>Rows and warnings of a run, source by source\<close>

lemma reddit_step_parts:
  "o_rows (reddit_step e config acc) = o_rows acc @ fst (reddit_part e config)"
  "o_warnings (reddit_step e config acc) = o_warnings acc @ snd (reddit_part e config)"
  by (auto simp: reddit_step_def reddit_part_def take_over_def warn_def split: sum.splits)

lemma x_step_parts:
  assumes "x_step e config acc = Some acc'"
  shows "o_rows acc' = o_rows acc @ fst (x_part e config)"
    and "o_warnings acc' = o_warnings acc @ snd (x_part e config)"
  using assms
  by (auto simp: x_step_def x_part_def take_over_def warn_def
           split: sum.splits option.splits if_splits)

lemma bsky_step_parts:
  "o_rows (bsky_step e config acc) = o_rows acc @ fst (bsky_part e config)"
  "o_warnings (bsky_step e config acc) = o_warnings acc @ snd (bsky_part e config)"
  by (auto simp: bsky_step_def bsky_part_def take_over_def warn_def split: sum.splits)

lemma mastodon_step_parts:
  "o_rows (mastodon_step e config acc) = o_rows acc @ fst (mastodon_part e config)"
  "o_warnings (mastodon_step e config acc) = o_warnings acc @ snd (mastodon_part e config)"
  by (auto simp: mastodon_step_def mastodon_part_def take_over_def warn_def split: sum.splits)

lemma collect_parts:
  assumes "collect e config = Some acc"
  shows "o_rows acc = fst (reddit_part e config) @ fst (x_part e config)
                        @ fst (bsky_part e config) @ fst (mastodon_part e config)"
    and "o_warnings acc = snd (reddit_part e config) @ snd (x_part e config)
                        @ snd (bsky_part e config) @ snd (mastodon_part e config)"
proof -
  obtain a1 where a1: "x_step e config (reddit_step e config orch_init) = Some a1"
    and acc: "acc = mastodon_step e config (bsky_step e config a1)"
    using assms unfolding collect_def by (auto split: option.splits)
  show "o_rows acc = fst (reddit_part e config) @ fst (x_part e config)
                        @ fst (bsky_part e config) @ fst (mastodon_part e config)"
    unfolding acc mastodon_step_parts bsky_step_parts x_step_parts(1)[OF a1] reddit_step_parts
    by (simp add: orch_init_def)
  show "o_warnings acc = snd (reddit_part e config) @ snd (x_part e config)
                        @ snd (bsky_part e config) @ snd (mastodon_part e config)"
    unfolding acc mastodon_step_parts bsky_step_parts x_step_parts(2)[OF a1] reddit_step_parts
    by (simp add: orch_init_def)
qed

lemma collect_returns:
  assumes "x_attempted config \<longrightarrow> x_outcome e config \<noteq> None"
  shows "\<exists>acc. collect e config = Some acc"
  using assms unfolding collect_def x_step_def
  by (auto split: option.splits sum.splits)

lemma collect_all_failed:
  assumes "collect e config = Some acc"
    and "reddit_attempted config \<longrightarrow> reddit_failed e config"
    and "x_attempted config \<longrightarrow> x_failed e config"
    and "bsky_attempted config \<longrightarrow> bsky_failed e config"
    and "mastodon_attempted config \<longrightarrow> mastodon_failed e config"
  shows "o_rows acc = [] \<and> o_summary acc = []"
proof -
  have r: "reddit_step e config orch_init
           = orch_init\<lparr>o_warnings := snd (reddit_part e config)\<rparr>"
    using assms(2)
    by (auto simp: reddit_step_def reddit_failed_def reddit_part_def warn_def orch_init_def
             split: sum.splits)
  have x: "x_step e config a = Some (a\<lparr>o_warnings := o_warnings a @ snd (x_part e config)\<rparr>)"
    if "x_step e config a \<noteq> None" for a
    using assms(3) that
    by (auto simp: x_step_def x_failed_def x_part_def warn_def split: sum.splits option.splits)
  have b: "bsky_step e config a = a\<lparr>o_warnings := o_warnings a @ snd (bsky_part e config)\<rparr>"
    for a
    using assms(4)
    by (auto simp: bsky_step_def bsky_failed_def bsky_part_def warn_def split: sum.splits)
  have m: "mastodon_step e config a
           = a\<lparr>o_warnings := o_warnings a @ snd (mastodon_part e config)\<rparr>" for a
    using assms(5)
    by (auto simp: mastodon_step_def mastodon_failed_def mastodon_part_def warn_def
             split: sum.splits)
  obtain a1 where a1: "x_step e config (reddit_step e config orch_init) = Some a1"
    and acc: "acc = mastodon_step e config (bsky_step e config a1)"
    using assms(1) unfolding collect_def by (auto split: option.splits)
  have "a1 = (reddit_step e config orch_init)
               \<lparr>o_warnings := o_warnings (reddit_step e config orch_init) @ snd (x_part e config)\<rparr>"
    using x[of "reddit_step e config orch_init"] a1 by simp
  then show ?thesis
    unfolding acc m b r by (simp add: orch_init_def)
qed

subsection \<open>Persisting a run\<close>

lemma filter_fresh:
  "list_all (\<lambda>r. fst r \<le> n) xs \<Longrightarrow> filter (\<lambda>r. fst r = Suc n) xs = []"
  by (induction xs) auto

lemma persist_id: "snd (persist e org acc db) = db_scan_seq db + 1"
  by (simp add: persist_def Let_def)

lemma persist_rows:
  assumes "db_wf db"
  shows "scan_rows (fst (persist e org acc db)) (db_scan_seq db + 1) = o_rows acc"
proof -
  have "filter (\<lambda>r. fst r = Suc (db_scan_seq db)) (db_scan_results db) = []"
    using assms by (intro filter_fresh) (simp add: db_wf_def)
  then show ?thesis
    by (simp add: persist_def Let_def scan_rows_def comp_def)
qed

lemma persist_summaries:
  assumes "db_wf db"
  shows "scan_summaries (fst (persist e org acc db)) (db_scan_seq db + 1) = o_summary acc"
proof -
  have "filter (\<lambda>r. fst r = Suc (db_scan_seq db)) (db_idea_summaries db) = []"
    using assms by (intro filter_fresh) (simp add: db_wf_def)
  moreover have "map snd (map (\<lambda>(key, data). (Suc (db_scan_seq db), key, data)) s) = s" for s :: summary
    by (induction s) auto
  ultimately show ?thesis
    by (simp add: persist_def Let_def scan_summaries_def case_prod_unfold)
qed

lemma persist_scans:
  "\<exists>header. db_scans (fst (persist e org acc db)) = db_scans db @ [header]
     \<and> sc_id header = db_scan_seq db + 1 \<and> sc_org_id header = org
     \<and> sc_warnings header = (if o_warnings acc = [] then None else Some (o_warnings acc))"
  by (simp add: persist_def Let_def)

lemma persist_frame:
  "db_configs (fst (persist e org acc db)) = db_configs db"
  "db_schedules (fst (persist e org acc db)) = db_schedules db"
  by (simp_all add: persist_def Let_def)

lemma ensure_org_config_frame:
  assumes "ensure_org_config org db = Inr (config, db1)"
  shows "db_scan_seq db1 = db_scan_seq db" "db_scans db1 = db_scans db"
    "db_scan_results db1 = db_scan_results db" "db_idea_summaries db1 = db_idea_summaries db"
  using assms
  by (auto simp: ensure_org_config_def Let_def split: option.splits)

lemma ensure_org_config_wf:
  "ensure_org_config org db = Inr (config, db1) \<Longrightarrow> db_wf db \<Longrightarrow> db_wf db1"
  by (auto simp: ensure_org_config_def Let_def db_wf_def split: option.splits)

lemma run_scan_for_org_alt:
  "run_scan_for_org e org db =
     (case (case map_of (db_configs db) org of
              Some config \<Rightarrow> Inr (config, db)
            | None \<Rightarrow> ensure_org_config org db) of
        Inl failure \<Rightarrow> Some (Inl failure)
      | Inr (config, db1) \<Rightarrow>
          (case collect e config of
             None \<Rightarrow> None
           | Some acc \<Rightarrow>
               Some (Inr (fst (persist e org acc db1), db_scan_seq db1 + 1, length (o_rows acc),
                          length (o_summary acc), o_warnings acc))))"
  unfolding run_scan_for_org_def
  by (simp add: case_prod_beta persist_id split: sum.splits option.splits)

lemma run_scan_for_org_known:
  assumes "map_of (db_configs db) org = Some config"
  shows "run_scan_for_org e org db =
     (case collect e config of
        None \<Rightarrow> None
      | Some acc \<Rightarrow>
          Some (Inr (fst (persist e org acc db), db_scan_seq db + 1, length (o_rows acc),
                     length (o_summary acc), o_warnings acc)))"
  unfolding run_scan_for_org_alt using assms by simp

lemma run_scan_for_org_result:
  assumes "run_scan_for_org e org db = Some (Inr (db', scan_id, n, m, ws))"
  shows "\<exists>config db1 acc.
      (map_of (db_configs db) org = Some config \<and> db1 = db
         \<or> map_of (db_configs db) org = None \<and> ensure_org_config org db = Inr (config, db1))
      \<and> collect e config = Some acc
      \<and> db' = fst (persist e org acc db1) \<and> scan_id = db_scan_seq db1 + 1
      \<and> n = length (o_rows acc) \<and> m = length (o_summary acc) \<and> ws = o_warnings acc"
  using assms unfolding run_scan_for_org_alt
  by (auto split: option.splits sum.splits)

subsection \<open>Warnings name their source, rows carry their source\<close>

lemma is_prefix_append: "is_prefix p (p @ s)"
  by (induction p) auto

lemma is_prefix_contains: "is_prefix p s \<Longrightarrow> contains p s"
  by (cases s; cases p) auto

lemma contains_append: "contains p (p @ s)"
  by (rule is_prefix_contains) (rule is_prefix_append)

lemma x_warning_names: "contains ''X'' (x_warning exc)"
  unfolding x_warning_def Let_def by (auto intro!: is_prefix_contains)

lemma bsky_warning_names: "contains ''Bluesky'' (bsky_warning exc)"
  unfolding bsky_warning_def Let_def by (auto intro!: is_prefix_contains)

lemma mastodon_warning_names: "contains ''Mastodon'' (mastodon_warning exc)"
  unfolding mastodon_warning_def Let_def by (auto intro!: is_prefix_contains)

lemma reddit_part_failed:
  "reddit_failed e config \<Longrightarrow>
     fst (reddit_part e config) = [] \<and> (\<exists>w. snd (reddit_part e config) = [w] \<and> contains ''Reddit'' w)"
  by (auto simp: reddit_failed_def reddit_part_def split: sum.splits intro!: is_prefix_contains)

lemma x_part_failed:
  "x_failed e config \<Longrightarrow>
     fst (x_part e config) = [] \<and> (\<exists>w. snd (x_part e config) = [w] \<and> contains ''X'' w)"
  by (auto simp: x_failed_def x_part_def x_warning_names split: sum.splits option.splits)

lemma bsky_part_failed:
  "bsky_failed e config \<Longrightarrow>
     fst (bsky_part e config) = [] \<and> (\<exists>w. snd (bsky_part e config) = [w] \<and> contains ''Bluesky'' w)"
  by (auto simp: bsky_failed_def bsky_part_def bsky_warning_names split: sum.splits)

lemma mastodon_part_failed:
  "mastodon_failed e config \<Longrightarrow>
     fst (mastodon_part e config) = []
     \<and> (\<exists>w. snd (mastodon_part e config) = [w] \<and> contains ''Mastodon'' w)"
  by (auto simp: mastodon_failed_def mastodon_part_def mastodon_warning_names split: sum.splits)

lemma reddit_part_source: "list_all (\<lambda>r. row_source r = ''Reddit'') (fst (reddit_part e config))"
proof -
  have "list_all (\<lambda>r. row_source r = ''Reddit'') (st_rows st)"
    if out: "reddit_outcome e config = Inr st" for st
  proof -
    obtain client where "scan_subreddits (env_now e) client (stripped_parts (cfg_subreddits config))
            (cfg_post_limit config) (cfg_since_days config) (cfg_include_comments config \<noteq> 0)
            (cfg_comment_limit config) (cfg_require_app_request config \<noteq> 0) = Inr st"
      using out unfolding reddit_outcome_def by (auto split: sum.splits)
    from scan_subreddits_rows[OF this] show ?thesis
      by (auto simp: list_all_iff reddit_row_def)
  qed
  then show ?thesis by (auto simp: reddit_part_def split: sum.splits)
qed

lemma x_part_source: "list_all (\<lambda>r. row_source r = ''X'') (fst (x_part e config))"
proof -
  have "list_all (\<lambda>r. row_source r = ''X'') (st_rows st)"
    if "x_outcome e config = Some (Inr st)" for st
    using scan_x_queries_rows[OF that[unfolded x_outcome_def]]
    by (auto simp: list_all_iff x_row_def)
  then show ?thesis by (auto simp: x_part_def split: sum.splits option.splits)
qed

lemma bsky_part_source: "list_all (\<lambda>r. row_source r = ''Bluesky'') (fst (bsky_part e config))"
proof -
  have "list_all (\<lambda>r. row_source r = ''Bluesky'') (st_rows st)"
    if "bsky_outcome e config = Inr st" for st
    using scan_bsky_queries_rows[OF that[unfolded bsky_outcome_def]]
    by (auto simp: list_all_iff bsky_row_def)
  then show ?thesis by (auto simp: bsky_part_def split: sum.splits)
qed

lemma mastodon_part_source:
  "list_all (\<lambda>r. row_source r = ''Mastodon'') (fst (mastodon_part e config))"
proof -
  have "list_all (\<lambda>r. row_source r = ''Mastodon'') (st_rows st)"
    if "mastodon_outcome e config = Inr st" for st
    using scan_mastodon_queries_rows[OF that[unfolded mastodon_outcome_def]]
    by (auto simp: list_all_iff mastodon_row_def)
  then show ?thesis by (auto simp: mastodon_part_def split: sum.splits)
qed

lemma attempted_part_nonempty:
  "reddit_attempted config \<Longrightarrow> reddit_failed e config \<Longrightarrow> snd (reddit_part e config) \<noteq> []"
  "x_attempted config \<Longrightarrow> x_failed e config \<Longrightarrow> snd (x_part e config) \<noteq> []"
  "bsky_attempted config \<Longrightarrow> bsky_failed e config \<Longrightarrow> snd (bsky_part e config) \<noteq> []"
  "mastodon_attempted config \<Longrightarrow> mastodon_failed e config \<Longrightarrow> snd (mastodon_part e config) \<noteq> []"
  using reddit_part_failed x_part_failed bsky_part_failed mastodon_part_failed by fastforce+

text \<open>Claim C2. Whatever subset of the attempted sources (Reddit, X, Bluesky, Mastodon)
  raises, \<^const>\<open>run_scan_for_org\<close> returns normally and appends exactly one scan header;
  for each failing source the header's warning list has an entry containing the source's name
  and no row of the scan carries that source; when every attempted source fails, the scan is
  persisted with no rows, no summaries and a non-empty warning list. The X adapter pages
  through the search results in a loop, so the run is required to get an answer from it.\<close>

theorem run_scan_isolates_failures:
  assumes cfg: "map_of (db_configs db) org = Some config"
    and wf: "db_wf db"
    and ret: "x_attempted config \<longrightarrow> x_outcome e config \<noteq> None"
  shows "\<exists>db' scan_id n m ws header.
      run_scan_for_org e org db = Some (Inr (db', scan_id, n, m, ws))
      \<and> db_scans db' = db_scans db @ [header]
      \<and> sc_id header = scan_id \<and> sc_org_id header = org
      \<and> sc_warnings header = (if ws = [] then None else Some ws)
      \<and> n = length (scan_rows db' scan_id) \<and> m = length (scan_summaries db' scan_id)
      \<and> (reddit_failed e config \<longrightarrow>
            (\<exists>w \<in> set ws. contains ''Reddit'' w)
            \<and> (\<forall>r \<in> set (scan_rows db' scan_id). row_source r \<noteq> ''Reddit''))
      \<and> (x_failed e config \<longrightarrow>
            (\<exists>w \<in> set ws. contains ''X'' w)
            \<and> (\<forall>r \<in> set (scan_rows db' scan_id). row_source r \<noteq> ''X''))
      \<and> (bsky_failed e config \<longrightarrow>
            (\<exists>w \<in> set ws. contains ''Bluesky'' w)
            \<and> (\<forall>r \<in> set (scan_rows db' scan_id). row_source r \<noteq> ''Bluesky''))
      \<and> (mastodon_failed e config \<longrightarrow>
            (\<exists>w \<in> set ws. contains ''Mastodon'' w)
            \<and> (\<forall>r \<in> set (scan_rows db' scan_id). row_source r \<noteq> ''Mastodon''))
      \<and> ((reddit_attempted config \<longrightarrow> reddit_failed e config)
           \<and> (x_attempted config \<longrightarrow> x_failed e config)
           \<and> (bsky_attempted config \<longrightarrow> bsky_failed e config)
           \<and> (mastodon_attempted config \<longrightarrow> mastodon_failed e config)
          \<longrightarrow> scan_rows db' scan_id = [] \<and> scan_summaries db' scan_id = []
              \<and> (reddit_attempted config \<or> x_attempted config \<or> bsky_attempted config
                    \<or> mastodon_attempted config \<longrightarrow> ws \<noteq> []))"
proof -
  obtain acc where acc: "collect e config = Some acc"
    using collect_returns[OF ret] by blast
  define db' where "db' = fst (persist e org acc db)"
  define scan_id where "scan_id = db_scan_seq db + 1"
  define ws where "ws = o_warnings acc"
  have run: "run_scan_for_org e org db
      = Some (Inr (db', scan_id, length (o_rows acc), length (o_summary acc), ws))"
    unfolding run_scan_for_org_known[OF cfg] acc db'_def scan_id_def ws_def by simp
  obtain header where header: "db_scans db' = db_scans db @ [header]"
    "sc_id header = scan_id" "sc_org_id header = org"
    "sc_warnings header = (if ws = [] then None else Some ws)"
    using persist_scans[of e org acc db] unfolding db'_def scan_id_def ws_def by blast
  have rows: "scan_rows db' scan_id = o_rows acc"
    unfolding db'_def scan_id_def by (rule persist_rows[OF wf])
  have summ: "scan_summaries db' scan_id = o_summary acc"
    unfolding db'_def scan_id_def by (rule persist_summaries[OF wf])
  note parts = collect_parts[OF acc]
  note src = reddit_part_source[of e config] x_part_source[of e config]
    bsky_part_source[of e config] mastodon_part_source[of e config]
  have reddit: "(\<exists>w \<in> set ws. contains ''Reddit'' w)
            \<and> (\<forall>r \<in> set (scan_rows db' scan_id). row_source r \<noteq> ''Reddit'')"
    if "reddit_failed e config"
    using reddit_part_failed[OF that] src unfolding rows ws_def parts
    by (auto simp: list_all_iff)
  have x: "(\<exists>w \<in> set ws. contains ''X'' w)
            \<and> (\<forall>r \<in> set (scan_rows db' scan_id). row_source r \<noteq> ''X'')"
    if "x_failed e config"
    using x_part_failed[OF that] src unfolding rows ws_def parts
    by (auto simp: list_all_iff)
  have bsky: "(\<exists>w \<in> set ws. contains ''Bluesky'' w)
            \<and> (\<forall>r \<in> set (scan_rows db' scan_id). row_source r \<noteq> ''Bluesky'')"
    if "bsky_failed e config"
    using bsky_part_failed[OF that] src unfolding rows ws_def parts
    by (auto simp: list_all_iff)
  have mastodon: "(\<exists>w \<in> set ws. contains ''Mastodon'' w)
            \<and> (\<forall>r \<in> set (scan_rows db' scan_id). row_source r \<noteq> ''Mastodon'')"
    if "mastodon_failed e config"
    using mastodon_part_failed[OF that] src unfolding rows ws_def parts
    by (auto simp: list_all_iff)
  have all: "scan_rows db' scan_id = [] \<and> scan_summaries db' scan_id = []
              \<and> (reddit_attempted config \<or> x_attempted config \<or> bsky_attempted config
                    \<or> mastodon_attempted config \<longrightarrow> ws \<noteq> [])"
    if "(reddit_attempted config \<longrightarrow> reddit_failed e config)
           \<and> (x_attempted config \<longrightarrow> x_failed e config)
           \<and> (bsky_attempted config \<longrightarrow> bsky_failed e config)
           \<and> (mastodon_attempted config \<longrightarrow> mastodon_failed e config)"
  proof -
    have "o_rows acc = [] \<and> o_summary acc = []"
      using collect_all_failed[OF acc] that by blast
    moreover have "ws \<noteq> []" if "reddit_attempted config \<or> x_attempted config
        \<or> bsky_attempted config \<or> mastodon_attempted config"
      using that \<open>(reddit_attempted config \<longrightarrow> reddit_failed e config)
           \<and> (x_attempted config \<longrightarrow> x_failed e config)
           \<and> (bsky_attempted config \<longrightarrow> bsky_failed e config)
           \<and> (mastodon_attempted config \<longrightarrow> mastodon_failed e config)\<close>
        attempted_part_nonempty[of config e]
      unfolding ws_def parts by auto
    ultimately show ?thesis unfolding rows summ by blast
  qed
  have lens: "length (o_rows acc) = length (scan_rows db' scan_id)"
    "length (o_summary acc) = length (scan_summaries db' scan_id)"
    unfolding rows summ by simp_all
  show ?thesis
    apply (rule exI[of _ db'], rule exI[of _ scan_id])
    apply (rule exI[of _ "length (o_rows acc)"], rule exI[of _ "length (o_summary acc)"])
    apply (rule exI[of _ ws], rule exI[of _ header])
    using run header lens reddit x bsky mastodon all by blast
qed

lemma ex_run_view:
  "run_view (run_scan_for_org ex_env 1 ex_db) =
     Some ((1, 3, 2, ex_warnings),
           [(''c1'', ''Bluesky'', ''expense tracking budget'', ''yes''),
            (''c3'', ''Bluesky'', ''expense tracking budget'', ''yes''),
            (''c4'', ''Bluesky'', ''bpain point invoices'', ''no'')],
           [(''expense tracking budget'', 2, 2), (''bpain point invoices'', 1, 0)])"
  by code_simp

lemma ex_db_wf: "db_wf ex_db"
  by (simp add: db_wf_def ex_db_def)

lemma ex_db_config: "map_of (db_configs ex_db) 1 = Some ex_config"
  by (simp add: ex_db_def)

lemma ex_attempted:
  "reddit_attempted ex_config" "\<not> x_attempted ex_config"
  "bsky_attempted ex_config" "mastodon_attempted ex_config"
  by code_simp+

lemma ex_failed:
  "reddit_failed ex_env ex_config" "mastodon_failed ex_env ex_config"
  "\<not> bsky_failed ex_env ex_config"
  by code_simp+

lemma keep_item_bucket:
  "mentions (look (st_summary (keep_item st r pay)) k)
     = mentions (look (st_summary st) k) + (if k = row_idea_key r then 1 else 0)"
  by (simp add: keep_item_def add_to_summary_def Let_def look_update)

text \<open>Claim C4. In every scan completed by \<^const>\<open>run_scan_for_org\<close> the mentions of the
  persisted idea summaries add up to the number of persisted rows, and the returned counts are
  those of the stored rows and summaries: \<^const>\<open>keep_item\<close> appends one row and adds one mention
  to the bucket of the row's idea key and to no other, and \<^const>\<open>merge_summaries\<close> adds up the
  totals.\<close>

theorem scan_mentions_match_rows:
  assumes wf: "db_wf db"
    and run: "run_scan_for_org e org db = Some (Inr (db', scan_id, n, m, ws))"
  shows "total_mentions (scan_summaries db' scan_id) = int (length (scan_rows db' scan_id))
     \<and> n = length (scan_rows db' scan_id)
     \<and> m = length (scan_summaries db' scan_id)
     \<and> length (st_rows (keep_item st r pay)) = length (st_rows st) + 1
     \<and> mentions (look (st_summary (keep_item st r pay)) k)
         = mentions (look (st_summary st) k) + (if k = row_idea_key r then 1 else 0)
     \<and> total_mentions (merge_summaries target incoming)
         = total_mentions target + total_mentions incoming"
proof -
  obtain config db1 acc where
    pre: "map_of (db_configs db) org = Some config \<and> db1 = db
         \<or> map_of (db_configs db) org = None \<and> ensure_org_config org db = Inr (config, db1)"
    and acc: "collect e config = Some acc"
    and res: "db' = fst (persist e org acc db1)" "scan_id = db_scan_seq db1 + 1"
      "n = length (o_rows acc)" "m = length (o_summary acc)"
    using run_scan_for_org_result[OF run] by blast
  have wf1: "db_wf db1"
    using pre wf ensure_org_config_wf by blast
  have rows: "scan_rows db' scan_id = o_rows acc"
    unfolding res by (rule persist_rows[OF wf1])
  have summ: "scan_summaries db' scan_id = o_summary acc"
    unfolding res by (rule persist_summaries[OF wf1])
  have "orch_synced acc" using acc by (rule collect_synced)
  then have "total_mentions (scan_summaries db' scan_id) = int (length (scan_rows db' scan_id))"
    unfolding rows summ orch_synced_def by simp
  moreover have "n = length (scan_rows db' scan_id)" "m = length (scan_summaries db' scan_id)"
    unfolding rows summ by (rule res)+
  ultimately show ?thesis
    by (simp add: keep_item_bucket merge_summaries_total rows_keep_item)
qed

lemma run_view_SomeD:
  assumes "run_view r = Some ((scan_id, res), rows, summ)"
  shows "\<exists>db'. r = Some (Inr (db', scan_id, res))
      \<and> rows = map (\<lambda>r. (row_id r, row_source r, row_idea_key r, row_willing_to_pay r))
                  (scan_rows db' scan_id)
      \<and> summ = map (\<lambda>e. (fst e, mentions (snd e), pay_mentions (snd e)))
                  (scan_summaries db' scan_id)"
  using assms unfolding run_view_def
  by (auto split: option.splits sum.splits)

text \<open>The example run stores three rows and two summaries with 2 + 1 mentions.\<close>

theorem scan_mentions_match_rows_witness:
  "db_wf ex_db
   \<and> (\<exists>db'. run_scan_for_org ex_env 1 ex_db = Some (Inr (db', 1, 3, 2, ex_warnings))
         \<and> total_mentions (scan_summaries db' 1) = 3
         \<and> length (scan_rows db' 1) = 3
         \<and> map (\<lambda>e. mentions (snd e)) (scan_summaries db' 1) = [2, 1])"
proof -
  obtain db' where run: "run_scan_for_org ex_env 1 ex_db = Some (Inr (db', 1, 3, 2, ex_warnings))"
    and summ: "[(''expense tracking budget'', 2, 2), (''bpain point invoices'', 1, 0)]
          = map (\<lambda>e. (fst e, mentions (snd e), pay_mentions (snd e))) (scan_summaries db' 1)"
    using run_view_SomeD[OF ex_run_view] by auto
  have "map (\<lambda>e. mentions (snd e)) (scan_summaries db' 1)
        = map (\<lambda>t. fst (snd t)) (map (\<lambda>e. (fst e, mentions (snd e), pay_mentions (snd e)))
            (scan_summaries db' 1))"
    by simp
  then have ms: "map (\<lambda>e. mentions (snd e)) (scan_summaries db' 1) = [2, 1]"
    unfolding summ[symmetric] by simp
  show ?thesis
    using scan_mentions_match_rows[OF ex_db_wf run] ex_db_wf run ms by auto
qed

lemma ex_down_view:
  "run_view (run_scan_for_org ex_env_down 1 ex_db) = Some ((1, 0, 0, ex_warnings_down), [], [])"
  by code_simp

lemma ex_down_failed:
  "reddit_failed ex_env_down ex_config" "bsky_failed ex_env_down ex_config"
  "mastodon_failed ex_env_down ex_config"
  by code_simp+

text \<open>Two runs of the example organisation: Reddit and Mastodon fail while Bluesky answers,
  and all three fail.\<close>

theorem run_scan_isolates_failures_witness:
  "db_wf ex_db \<and> map_of (db_configs ex_db) 1 = Some ex_config
   \<and> reddit_failed ex_env ex_config \<and> mastodon_failed ex_env ex_config
   \<and> (\<exists>db' header. run_scan_for_org ex_env 1 ex_db = Some (Inr (db', 1, 3, 2, ex_warnings))
         \<and> db_scans db' = db_scans ex_db @ [header] \<and> sc_warnings header = Some ex_warnings
         \<and> (\<exists>w \<in> set ex_warnings. contains ''Reddit'' w)
         \<and> (\<exists>w \<in> set ex_warnings. contains ''Mastodon'' w)
         \<and> list_all (\<lambda>r. row_source r \<noteq> ''Reddit'' \<and> row_source r \<noteq> ''Mastodon'')
              (scan_rows db' 1))
   \<and> (\<exists>db' header. run_scan_for_org ex_env_down 1 ex_db
                       = Some (Inr (db', 1, 0, 0, ex_warnings_down))
         \<and> db_scans db' = db_scans ex_db @ [header] \<and> sc_warnings header = Some ex_warnings_down
         \<and> scan_rows db' 1 = [] \<and> scan_summaries db' 1 = [])"
proof -
  have ret: "x_attempted ex_config \<longrightarrow> x_outcome env0 ex_config \<noteq> None" for env0
    using ex_attempted(2) by simp
  obtain db1 where run1: "run_scan_for_org ex_env 1 ex_db = Some (Inr (db1, 1, 3, 2, ex_warnings))"
    using run_view_SomeD[OF ex_run_view] by auto
  obtain db2 where
    run2: "run_scan_for_org ex_env_down 1 ex_db = Some (Inr (db2, 1, 0, 0, ex_warnings_down))"
    using run_view_SomeD[OF ex_down_view] by auto
  have ne: "ex_warnings \<noteq> []" "ex_warnings_down \<noteq> []"
    by (simp_all add: ex_warnings_def ex_warnings_down_def)
  have first: "\<exists>db' header. run_scan_for_org ex_env 1 ex_db = Some (Inr (db', 1, 3, 2, ex_warnings))
         \<and> db_scans db' = db_scans ex_db @ [header] \<and> sc_warnings header = Some ex_warnings
         \<and> (\<exists>w \<in> set ex_warnings. contains ''Reddit'' w)
         \<and> (\<exists>w \<in> set ex_warnings. contains ''Mastodon'' w)
         \<and> list_all (\<lambda>r. row_source r \<noteq> ''Reddit'' \<and> row_source r \<noteq> ''Mastodon'')
              (scan_rows db' 1)"
    using run_scan_isolates_failures[OF ex_db_config ex_db_wf ret, of ex_env] ex_failed(1,2) ne
    unfolding run1 by (auto simp: list_all_iff)
  have second: "\<exists>db' header. run_scan_for_org ex_env_down 1 ex_db
                       = Some (Inr (db', 1, 0, 0, ex_warnings_down))
         \<and> db_scans db' = db_scans ex_db @ [header] \<and> sc_warnings header = Some ex_warnings_down
         \<and> scan_rows db' 1 = [] \<and> scan_summaries db' 1 = []"
    using run_scan_isolates_failures[OF ex_db_config ex_db_wf ret, of ex_env_down] ex_down_failed ne
    unfolding run2 by auto
  show ?thesis
    using ex_db_wf ex_db_config ex_failed(1,2) first second by blast
qed

lemma foldl_merge_bounded:
  "pay_bounded target \<Longrightarrow> list_all pay_bounded partials
     \<Longrightarrow> pay_bounded (foldl merge_summaries target partials)"
  by (induction partials arbitrary: target) (auto intro: merge_summaries_bounded)

text \<open>Claim C5. Every bucket of the summary accumulated by each of the four adapters has
  \<open>pay_mentions \<le> mentions\<close>, and the bound survives merging any list of bounded partial
  summaries into a bounded target with \<^const>\<open>merge_summaries\<close>.\<close>

theorem pay_mentions_bounded:
  "(scan_subreddits now client names pl sd ic cl rar = Inr st1 \<longrightarrow> pay_bounded (st_summary st1))
   \<and> (scan_x_queries now tok x_api x_qs x_lmt x_sd lang rt = Some (Inr st2)
        \<longrightarrow> pay_bounded (st_summary st2))
   \<and> (scan_bsky_queries b_api b_qs b_lmt base = Inr st3 \<longrightarrow> pay_bounded (st_summary st3))
   \<and> (scan_mastodon_queries now m_api unescape m_qs m_lmt inst m_sd m_tok = Inr st4
        \<longrightarrow> pay_bounded (st_summary st4))
   \<and> (pay_bounded target \<and> list_all pay_bounded partials
        \<longrightarrow> pay_bounded (foldl merge_summaries target partials))
   \<and> (pay_bounded s \<longleftrightarrow> (\<forall>(k, b) \<in> set s. pay_mentions b \<le> mentions b))"
proof (intro conjI impI)
  show "pay_bounded (st_summary st1)"
    if "scan_subreddits now client names pl sd ic cl rar = Inr st1"
    using scan_subreddits_synced[OF that] by (simp add: synced_def)
  show "pay_bounded (st_summary st2)"
    if "scan_x_queries now tok x_api x_qs x_lmt x_sd lang rt = Some (Inr st2)"
    using scan_x_queries_synced[OF that] by (simp add: synced_def)
  show "pay_bounded (st_summary st3)"
    if "scan_bsky_queries b_api b_qs b_lmt base = Inr st3"
    using scan_bsky_queries_synced[OF that] by (simp add: synced_def)
  show "pay_bounded (st_summary st4)"
    if "scan_mastodon_queries now m_api unescape m_qs m_lmt inst m_sd m_tok = Inr st4"
    using scan_mastodon_queries_synced[OF that] by (simp add: synced_def)
  show "pay_bounded (foldl merge_summaries target partials)"
    if "pay_bounded target \<and> list_all pay_bounded partials"
    using that foldl_merge_bounded by blast
  show "pay_bounded s \<longleftrightarrow> (\<forall>(k, b) \<in> set s. pay_mentions b \<le> mentions b)"
    by (rule pay_bounded_iff)
qed

text \<open>The Bluesky adapter on the example posts, and the merge of two partial summaries.\<close>

theorem pay_mentions_bounded_witness:
  "(\<exists>st. scan_bsky_queries (env_bsky_api ex_env) [''app for''] 100 DEFAULT_BSKY_BASE_URL = Inr st
        \<and> pay_bounded (st_summary st))
   \<and> pay_bounded merge_part_a \<and> pay_bounded merge_part_b
   \<and> pay_bounded (foldl merge_summaries [] [merge_part_a, merge_part_b])"
proof -
  have "\<not> isl (scan_bsky_queries (env_bsky_api ex_env) [''app for''] 100 DEFAULT_BSKY_BASE_URL)"
    by code_simp
  then obtain st where
    st: "scan_bsky_queries (env_bsky_api ex_env) [''app for''] 100 DEFAULT_BSKY_BASE_URL = Inr st"
    by (cases "scan_bsky_queries (env_bsky_api ex_env) [''app for''] 100 DEFAULT_BSKY_BASE_URL") auto
  have parts: "pay_bounded []" "pay_bounded merge_part_a" "pay_bounded merge_part_b"
    by (simp_all add: pay_bounded_def merge_part_a_def merge_part_b_def)
  show ?thesis
    using pay_mentions_bounded[where b_api = "env_bsky_api ex_env" and b_qs = "[''app for'']" and b_lmt = 100
              and base = DEFAULT_BSKY_BASE_URL and ?st3.0 = st and target = "[]"
              and partials = "[merge_part_a, merge_part_b]" and s = "[]"]
      st parts
    by (intro conjI exI[of _ st]) simp_all
qed

section \<open>The cutoff window\<close>

lemma row_ids_SomeD: "row_ids res = Some ids \<Longrightarrow> \<exists>st. res = Inr st \<and> map row_id (st_rows st) = ids"
  by (auto simp: row_ids_def split: sum.splits)

lemma ex_reddit_ids:
  "row_ids (scan_subreddits ex_now ex_reddit [''SaaS''] 50 7 True 20 False) = Some [''s1'', ''k1'']"
  by code_simp

lemma ex_mastodon_ids:
  "row_ids (scan_mastodon_queries ex_now ex_mastodon (\<lambda>s. s) [''app for''] 20
              DEFAULT_MASTODON_INSTANCE 7 None) = Some [''m1'']"
  by code_simp

lemma x_tweet_untimed:
  "map untimed (st_rows (x_tweet now q (tw\<lparr>tw_created_at := c\<rparr>) st))
     = map untimed (st_rows (x_tweet now q tw st))"
  by (simp add: x_tweet_def Let_def keep_item_def untimed_def)

lemma bsky_post_step_untimed:
  "map untimed (st_rows (bsky_post_step q (p\<lparr>bp_created_at := c, bp_indexed_at := c'\<rparr>) st))
     = map untimed (st_rows (bsky_post_step q p st))"
  by (simp add: bsky_post_step_def Let_def keep_item_def untimed_def build_post_url_def)

lemma reddit_row_not_older:
  "reddit_row cutoff r \<Longrightarrow> \<not> older_than cutoff r \<and> (\<exists>t. row_created_utc r = IsoAware t)"
  by (auto simp: reddit_row_def older_than_def)

lemma mastodon_row_not_older: "mastodon_row (Some cutoff) r \<Longrightarrow> \<not> older_than cutoff r"
  by (auto simp: mastodon_row_def older_than_def split: time_text.splits)

text \<open>
  C9, as the code applies the window.  The Reddit adapter compares every submission and every
  comment it is handed with \<open>now - since_days\<close>, so none of its rows is older than the cutoff
  (the comments are those the library lists after \<open>replace_more(limit=0)\<close>).  The Mastodon
  adapter does so when its \<open>since_days\<close> is positive, for the statuses whose time it can read.
  The X adapter sends \<open>start_time = now - since_days\<close>, with the days clamped to 1..7, to the
  provider and keeps whatever comes back: its rows do not depend on the time of a tweet, and
  neither do the rows of the Bluesky adapter, which has no cutoff.
\<close>

theorem cutoff_window_by_adapter:
  "(scan_subreddits now client names pl sd ic cl rar = Inr st1
      \<longrightarrow> list_all (\<lambda>r. \<not> older_than (now - days_us sd) r
                         \<and> (\<exists>t. row_created_utc r = IsoAware t)) (st_rows st1))
   \<and> (scan_mastodon_queries now m_api unescape m_qs m_lmt inst m_sd m_tok = Inr st4 \<and> 0 < m_sd
        \<longrightarrow> list_all (\<lambda>r. \<not> older_than (now - days_us m_sd) r) (st_rows st4))
   \<and> fetch_recent_tweets now x_api token query limit x_sd
       = fetch_pages x_api
           \<lparr>xq_token = token, xq_query = query, xq_max_results = min limit 100,
            xq_start_time = now - days_us (if x_sd < 1 then 1 else if 7 < x_sd then 7 else x_sd),
            xq_next_token = None\<rparr> limit []
   \<and> map untimed (st_rows (x_tweet now q (tw\<lparr>tw_created_at := c\<rparr>) st))
       = map untimed (st_rows (x_tweet now q tw st))
   \<and> map untimed (st_rows (bsky_post_step q (p\<lparr>bp_created_at := c, bp_indexed_at := c'\<rparr>) st))
       = map untimed (st_rows (bsky_post_step q p st))"
proof (intro conjI impI)
  show "list_all (\<lambda>r. \<not> older_than (now - days_us sd) r
                         \<and> (\<exists>t. row_created_utc r = IsoAware t)) (st_rows st1)"
    if "scan_subreddits now client names pl sd ic cl rar = Inr st1"
    using scan_subreddits_rows[OF that] reddit_row_not_older
    by (auto simp: list_all_iff)
  show "list_all (\<lambda>r. \<not> older_than (now - days_us m_sd) r) (st_rows st4)"
    if "scan_mastodon_queries now m_api unescape m_qs m_lmt inst m_sd m_tok = Inr st4 \<and> 0 < m_sd"
    using scan_mastodon_queries_rows[of now m_api unescape m_qs m_lmt inst m_sd m_tok st4] that
      mastodon_row_not_older
    by (auto simp: list_all_iff)
  show "fetch_recent_tweets now x_api token query limit x_sd
       = fetch_pages x_api
           \<lparr>xq_token = token, xq_query = query, xq_max_results = min limit 100,
            xq_start_time = now - days_us (if x_sd < 1 then 1 else if 7 < x_sd then 7 else x_sd),
            xq_next_token = None\<rparr> limit []"
    by (simp add: fetch_recent_tweets_def Let_def min_def max_def)
  show "map untimed (st_rows (x_tweet now q (tw\<lparr>tw_created_at := c\<rparr>) st))
       = map untimed (st_rows (x_tweet now q tw st))"
    by (rule x_tweet_untimed)
  show "map untimed (st_rows (bsky_post_step q (p\<lparr>bp_created_at := c, bp_indexed_at := c'\<rparr>) st))
       = map untimed (st_rows (bsky_post_step q p st))"
    by (rule bsky_post_step_untimed)
qed

text \<open>The example listing and the example answer, with a window of seven days: the rows
  of last month are gone, and so is the fresh comment under the old submission.\<close>

theorem cutoff_window_by_adapter_witness:
  "(\<exists>st. scan_subreddits ex_now ex_reddit [''SaaS''] 50 7 True 20 False = Inr st
         \<and> map row_id (st_rows st) = [''s1'', ''k1'']
         \<and> list_all (\<lambda>r. \<not> older_than (ex_now - days_us 7) r) (st_rows st))
   \<and> (\<exists>st. scan_mastodon_queries ex_now ex_mastodon (\<lambda>s. s) [''app for''] 20
              DEFAULT_MASTODON_INSTANCE 7 None = Inr st
         \<and> map row_id (st_rows st) = [''m1'']
         \<and> list_all (\<lambda>r. \<not> older_than (ex_now - days_us 7) r) (st_rows st))"
proof -
  obtain st1 where st1: "scan_subreddits ex_now ex_reddit [''SaaS''] 50 7 True 20 False = Inr st1"
    "map row_id (st_rows st1) = [''s1'', ''k1'']"
    using row_ids_SomeD[OF ex_reddit_ids] by auto
  obtain st4 where st4: "scan_mastodon_queries ex_now ex_mastodon (\<lambda>s. s) [''app for''] 20
              DEFAULT_MASTODON_INSTANCE 7 None = Inr st4"
    "map row_id (st_rows st4) = [''m1'']"
    using row_ids_SomeD[OF ex_mastodon_ids] by auto
  have old: "list_all (\<lambda>r. \<not> older_than (ex_now - days_us 7) r) (st_rows st1)"
    "list_all (\<lambda>r. \<not> older_than (ex_now - days_us 7) r) (st_rows st4)"
    using cutoff_window_by_adapter[where now = ex_now and client = ex_reddit
        and names = "[''SaaS'']" and pl = 50 and sd = 7 and ic = True and cl = 20 and rar = False
        and ?st1.0 = st1 and m_api = ex_mastodon and unescape = "\<lambda>s. s"
        and m_qs = "[''app for'']" and m_lmt = 20 and inst = DEFAULT_MASTODON_INSTANCE
        and m_sd = 7 and m_tok = None and ?st4.0 = st4] st1(1) st4(1)
    by (simp_all add: list_all_iff)
  show ?thesis
  proof (intro conjI)
    show "\<exists>st. scan_subreddits ex_now ex_reddit [''SaaS''] 50 7 True 20 False = Inr st
         \<and> map row_id (st_rows st) = [''s1'', ''k1'']
         \<and> list_all (\<lambda>r. \<not> older_than (ex_now - days_us 7) r) (st_rows st)"
      by (rule exI[of _ st1]) (simp only: st1 old simp_thms)
    show "\<exists>st. scan_mastodon_queries ex_now ex_mastodon (\<lambda>s. s) [''app for''] 20
              DEFAULT_MASTODON_INSTANCE 7 None = Inr st
         \<and> map row_id (st_rows st) = [''m1'']
         \<and> list_all (\<lambda>r. \<not> older_than (ex_now - days_us 7) r) (st_rows st)"
      by (rule exI[of _ st4]) (simp only: st4 old simp_thms)
  qed
qed

text \<open>
  C9 fails for Bluesky: the example posts are dated 1970, the window of the configuration
  opens seven days before the clock reading of 2023, and the adapter returns the three matching
  posts all the same.
\<close>

theorem bsky_keeps_old_posts_counterexample:
  "row_ids (scan_bsky_queries (env_bsky_api ex_env) [''app for''] 100 DEFAULT_BSKY_BASE_URL)
     = Some [''c1'', ''c3'', ''c4'']
   \<and> (case scan_bsky_queries (env_bsky_api ex_env) [''app for''] 100 DEFAULT_BSKY_BASE_URL of
         Inr st \<Rightarrow> list_all (older_than (env_now ex_env - days_us (cfg_since_days ex_config)))
                     (st_rows st)
       | Inl e \<Rightarrow> False)
   \<and> env_now ex_env - days_us (cfg_since_days ex_config) = 1699395200000000"
  by code_simp

end
